theory Spec2Isabelle
  imports Complex_Main
begin

section \<open>JavaScript values\<close>

text \<open>
  A property that may be absent is an \<open>option\<close>: \<open>None\<close> is \<open>undefined\<close>.
  Identifiers, names and labels are strings. A string is truthy when it is present and
  not empty; an array is truthy whenever it is present, also when it is empty.
\<close>

definition truthy :: "string option \<Rightarrow> bool" where
  "truthy v = (case v of None \<Rightarrow> False | Some s \<Rightarrow> s \<noteq> [])"

text \<open>\<open>a || b\<close> on two optional strings.\<close>

definition js_or :: "string option \<Rightarrow> string option \<Rightarrow> string option" where
  "js_or a b = (if truthy a then a else b)"

text \<open>
  A plain object (\<open>{}\<close>) used as a dictionary answers a key that is not its own with
  the member it inherits from \<open>Object.prototype\<close>, if the key names one: a function, or
  for \<open>__proto__\<close> the prototype object itself. Such a value is truthy and is no number.
\<close>

definition inherited :: "string \<Rightarrow> bool" where
  "inherited k \<longleftrightarrow>
     k \<in> set [''constructor'', ''toString'', ''toLocaleString'', ''valueOf'',
               ''hasOwnProperty'', ''isPrototypeOf'', ''propertyIsEnumerable'', ''__proto__'',
               ''__defineGetter__'', ''__defineSetter__'', ''__lookupGetter__'',
               ''__lookupSetter__'']"

text \<open>
  Colours are RGB triples: \<open>'#ffffff'\<close> is \<open>RGB 255 255 255\<close>. A style field that holds
  \<open>undefined\<close> is \<open>None\<close>.
\<close>

datatype colour = RGB nat nat nat

section \<open>The run-start payload\<close>

record vertex =
  vertex_id :: "string option"
  vertex_name :: "string option"

record edge =
  edge_id :: "string option"
  edge_name :: "string option"
  sourceVertexId :: "string option"
  targetVertexId :: "string option"

text \<open>
  A model container and a sub-model are the same kind of object: the code reads
  \<open>name\<close> and \<open>models\<close> of a container, and \<open>vertices\<close> and \<open>edges\<close> of whatever it
  iterates as a sub-model (the elements of \<open>model.models\<close>, or the container itself).
\<close>

datatype model = Model
  (model_name: "string option")
  (model_models: "model list option")
  (model_vertices: "vertex list option")
  (model_edges: "edge list option")

section \<open>The canonical graph (graph.js, convertModelsToG6Data)\<close>

record g6node =
  n_id :: "string option"
  n_label :: "string option"
  n_originalId :: "string option"
  n_modelName :: string
  n_type :: string
  n_fill :: colour
  n_stroke :: colour

record g6edge =
  e_id :: "string option"
  e_source :: "string option"
  e_target :: "string option"
  e_label :: "string option"
  e_originalId :: "string option"
  e_modelName :: string

record g6data =
  nodes :: "g6node list"
  edges :: "g6edge list"

text \<open>\<open>model.name || 'default'\<close>\<close>

definition modelName_of :: "model \<Rightarrow> string" where
  "modelName_of m = (case model_name m of None \<Rightarrow> ''default''
     | Some s \<Rightarrow> if s \<noteq> [] then s else ''default'')"

text \<open>\<open>model.models || [model]\<close>\<close>

definition actualModels_of :: "model \<Rightarrow> model list" where
  "actualModels_of m = (case model_models m of None \<Rightarrow> [m] | Some ms \<Rightarrow> ms)"

text \<open>The object pushed for one vertex.\<close>

definition node_of :: "string \<Rightarrow> vertex \<Rightarrow> g6node" where
  "node_of modelName v =
     \<lparr> n_id = js_or (vertex_name v) (vertex_id v),
       n_label = js_or (vertex_name v) (vertex_id v),
       n_originalId = vertex_id v,
       n_modelName = modelName,
       n_type = ''rect'',
       n_fill = RGB 255 255 255,
       n_stroke = RGB 91 143 249 \<rparr>"

text \<open>\<open>actualModel.vertices?.find(v => v.id === ref)\<close>\<close>

definition find_vertex :: "model \<Rightarrow> string option \<Rightarrow> vertex option" where
  "find_vertex am ref = (case model_vertices am of None \<Rightarrow> None
     | Some vs \<Rightarrow> find (\<lambda>v. vertex_id v = ref) vs)"

text \<open>\<open>found?.name || ref\<close>\<close>

definition endpoint_of :: "vertex option \<Rightarrow> string option \<Rightarrow> string option" where
  "endpoint_of found ref = (case found of None \<Rightarrow> ref | Some v \<Rightarrow> js_or (vertex_name v) ref)"

text \<open>The object pushed for one edge of the sub-model \<open>am\<close>.\<close>

definition edge_of :: "string \<Rightarrow> model \<Rightarrow> edge \<Rightarrow> g6edge" where
  "edge_of modelName am e =
     (let sourceVertex = find_vertex am (sourceVertexId e);
          targetVertex = find_vertex am (targetVertexId e)
      in \<lparr> e_id = js_or (edge_name e) (edge_id e),
           e_source = endpoint_of sourceVertex (sourceVertexId e),
           e_target = endpoint_of targetVertex (targetVertexId e),
           e_label = js_or (edge_name e) (Some ''''),
           e_originalId = edge_id e,
           e_modelName = modelName \<rparr>)"

text \<open>The body of the inner \<open>forEach\<close>: one sub-model, pushing onto both arrays.\<close>

definition push_submodel :: "string \<Rightarrow> g6data \<Rightarrow> model \<Rightarrow> g6data" where
  "push_submodel modelName acc am =
     (let acc1 = (case model_vertices am of
                    None \<Rightarrow> acc
                  | Some vs \<Rightarrow> acc\<lparr>nodes := nodes acc @ map (node_of modelName) vs\<rparr>)
      in (case model_edges am of
            None \<Rightarrow> acc1
          | Some es \<Rightarrow> acc1\<lparr>edges := edges acc1 @ map (edge_of modelName am) es\<rparr>))"

text \<open>The body of the outer \<open>forEach\<close>: one container.\<close>

definition push_model :: "g6data \<Rightarrow> model \<Rightarrow> g6data" where
  "push_model acc m = foldl (push_submodel (modelName_of m)) acc (actualModels_of m)"

definition convertModelsToG6Data :: "model list \<Rightarrow> g6data" where
  "convertModelsToG6Data ms = foldl push_model \<lparr>nodes = [], edges = []\<rparr> ms"

section \<open>Exceptions\<close>

text \<open>
  A call that throws returns \<open>Inl\<close> with the error and the state as the call left it;
  a call that returns gives \<open>Inr\<close> with the new state.
\<close>

datatype js_error = TypeError | SyntaxError

type_synonym 'a result = "(js_error \<times> 'a) + 'a"

text \<open>The state a call leaves, whether it returned or threw.\<close>

definition state_of :: "'a result \<Rightarrow> 'a" where
  "state_of r = (case r of Inl (e, s) \<Rightarrow> s | Inr s \<Rightarrow> s)"

text \<open>A call returned.\<close>

definition returned :: "'a result \<Rightarrow> bool" where
  "returned r = (case r of Inl e \<Rightarrow> False | Inr s \<Rightarrow> True)"

section \<open>The rendering surface\<close>

text \<open>
  The G6 graph is an external library. It is modelled by the part of its contract the
  visualizer relies on: the graph holds items, each with the node or edge object it was
  built from and a style; \<open>findById\<close> reads the graph's item map, a plain object keyed
  by the \<open>id\<close>s of the items; \<open>updateItem\<close> assigns the style fields given, \<open>undefined\<close>
  ones too, to the item with the identifier; \<open>data\<close> followed by \<open>render\<close>
  replaces all items by fresh ones built from the data, as far as the graph accepts
  them; \<open>clear\<close> removes all items.
  Layout and viewport (\<open>fitView\<close>, \<open>changeSize\<close>, \<open>updateLayout\<close>) have no effect on
  items and are left out.
\<close>

datatype item_model = NodeModel g6node | EdgeModel g6edge

datatype item_type = Node | Edge

record style =
  st_fill :: "colour option"
  st_stroke :: "colour option"
  st_lineWidth :: nat
  st_shadowColor :: "colour option"
  st_shadowBlur :: nat
  st_arrowFill :: "colour option"

record item =
  it_model :: item_model
  it_style :: style

record g6graph =
  items :: "item list"

definition item_id :: "item \<Rightarrow> string option" where
  "item_id it = (case it_model it of NodeModel n \<Rightarrow> n_id n | EdgeModel e \<Rightarrow> e_id e)"

definition getType :: "item \<Rightarrow> item_type" where
  "getType it = (case it_model it of NodeModel n \<Rightarrow> Node | EdgeModel e \<Rightarrow> Edge)"

text \<open>
  A fresh node takes \<open>defaultNode\<close>'s style with the \<open>fill\<close> and \<open>stroke\<close> of its own
  object; a fresh edge takes \<open>defaultEdge\<close>'s style (\<open>'#94a3b8'\<close>). Both have
  \<open>lineWidth: 2\<close> and no shadow.
\<close>

definition node_item :: "g6node \<Rightarrow> item" where
  "node_item n =
     \<lparr> it_model = NodeModel n,
       it_style = \<lparr> st_fill = Some (n_fill n), st_stroke = Some (n_stroke n), st_lineWidth = 2,
                    st_shadowColor = None, st_shadowBlur = 0, st_arrowFill = None \<rparr> \<rparr>"

definition edge_item :: "g6edge \<Rightarrow> item" where
  "edge_item e =
     \<lparr> it_model = EdgeModel e,
       it_style = \<lparr> st_fill = None, st_stroke = Some (RGB 148 163 184), st_lineWidth = 2,
                    st_shadowColor = None, st_shadowBlur = 0,
                    st_arrowFill = Some (RGB 148 163 184) \<rparr> \<rparr>"

text \<open>The item with identifier \<open>i\<close>: the own key \<open>i\<close> of the item map.\<close>

definition own_item :: "g6graph \<Rightarrow> string \<Rightarrow> item option" where
  "own_item g i = find (\<lambda>it. item_id it = Some i) (items g)"

text \<open>
  What \<open>findById\<close> returns: \<open>undefined\<close>, an item, or, for an identifier that is no
  item's but names an inherited member of the item map, that member. The member is
  truthy (\<open>!item\<close> is false for it) and has no \<open>getType\<close>: calling it throws a TypeError.
\<close>

datatype looked_up = Undefined | ItemFound item | InheritedMember

definition findById :: "g6graph \<Rightarrow> string \<Rightarrow> looked_up" where
  "findById g i =
     (case own_item g i of
        Some it \<Rightarrow> ItemFound it
      | None \<Rightarrow> if inherited i then InheritedMember else Undefined)"

text \<open>
  \<open>graph.data(d); graph.render()\<close> clears the graph and then adds the nodes and, after
  them, the edges of the data, each list in order. The graph refuses an item when
  \<open>findById\<close> already answers for its identifier: another item has it, or it names an
  inherited member of the item map. It refuses an edge without a source or a target, or
  with one for which \<open>findById\<close> has no answer. An edge is connected to what
  \<open>findById\<close> gives for its ends: a node, or a plain object, which is taken for a point
  (the prototype object that \<open>__proto__\<close> reads is one). When the answer for an end is
  neither (an edge, or an inherited function), connecting fails with a TypeError, which
  ends \<open>render\<close>: the items added before remain.
\<close>

definition id_taken :: "item list \<Rightarrow> string option \<Rightarrow> bool" where
  "id_taken its i = (truthy i \<and> findById \<lparr> items = its \<rparr> (the i) \<noteq> Undefined)"

definition add_node :: "item list \<Rightarrow> g6node \<Rightarrow> item list" where
  "add_node its n = (if id_taken its (n_id n) then its else its @ [node_item n])"

datatype edge_end = NoEnd | NodeEnd | PointEnd | OtherEnd

definition end_of :: "item list \<Rightarrow> string option \<Rightarrow> edge_end" where
  "end_of its e =
     (if truthy e
      then (case findById \<lparr> items = its \<rparr> (the e) of
              Undefined \<Rightarrow> NoEnd
            | ItemFound it \<Rightarrow> (case getType it of Node \<Rightarrow> NodeEnd | Edge \<Rightarrow> OtherEnd)
            | InheritedMember \<Rightarrow> if the e = ''__proto__'' then PointEnd else OtherEnd)
      else NoEnd)"

fun add_edges :: "item list \<Rightarrow> g6edge list \<Rightarrow> item list result" where
  "add_edges its [] = Inr its"
| "add_edges its (e # es) =
     (if id_taken its (e_id e) then add_edges its es
      else if end_of its (e_source e) = NoEnd \<or> end_of its (e_target e) = NoEnd
      then add_edges its es
      else if end_of its (e_source e) = OtherEnd \<or> end_of its (e_target e) = OtherEnd
      then Inl (TypeError, its)
      else add_edges (its @ [edge_item e]) es)"

definition render_items :: "g6data \<Rightarrow> item list result" where
  "render_items d = add_edges (foldl add_node [] (nodes d)) (edges d)"

text \<open>The graph \<open>graph.data(d); graph.render()\<close> leaves.\<close>

definition g6_render :: "g6data \<Rightarrow> g6graph" where
  "g6_render d = \<lparr> items = state_of (render_items d) \<rparr>"

text \<open>\<open>new G6.Graph({...})\<close> and \<open>graph.clear()\<close>\<close>

definition g6_empty :: g6graph where
  "g6_empty = \<lparr> items = [] \<rparr>"

fun update_first :: "('a \<Rightarrow> bool) \<Rightarrow> ('a \<Rightarrow> 'a) \<Rightarrow> 'a list \<Rightarrow> 'a list" where
  "update_first p f [] = []"
| "update_first p f (x # xs) = (if p x then f x # xs else x # update_first p f xs)"

text \<open>\<open>graph.updateItem(id, {style: ...})\<close>, the style fields given as a function.\<close>

definition updateItem :: "g6graph \<Rightarrow> string \<Rightarrow> (style \<Rightarrow> style) \<Rightarrow> g6graph" where
  "updateItem g i f =
     g\<lparr>items := update_first (\<lambda>it. item_id it = Some i)
                   (\<lambda>it. it\<lparr>it_style := f (it_style it)\<rparr>) (items g)\<rparr>"

section \<open>The colour scale\<close>

text \<open>
  \<open>d3.scaleLinear().domain([0, 5]).range(['#d1f4e0', '#10b981']).clamp(true)\<close>: the
  count is clamped to 5, each channel is interpolated linearly between the two colours
  and rounded to the nearest integer, halves upwards. With \<open>k\<close> fifths of the way from
  \<open>a\<close> to \<open>b\<close> the channel is \<open>\<lfloor>a + k (b - a) / 5 + 1/2\<rfloor>\<close>.
\<close>

definition channel :: "int \<Rightarrow> int \<Rightarrow> nat \<Rightarrow> nat" where
  "channel a b k = nat ((10 * a + 2 * int k * (b - a) + 5) div 10)"

text \<open>
  What \<open>this.visitCounts[id] || 0\<close> can be: a number; the text that \<open>+ 1\<close> makes of a
  value that is no number (string concatenation); or an inherited member.
\<close>

datatype js_count = Number nat | Text | Member

text \<open>\<open>v + 1\<close>\<close>

fun plus_one :: "js_count \<Rightarrow> js_count" where
  "plus_one (Number n) = Number (n + 1)"
| "plus_one Text = Text"
| "plus_one Member = Text"

text \<open>The scale converts its argument to a number and returns \<open>undefined\<close> for NaN.\<close>

fun colorScale :: "js_count \<Rightarrow> colour option" where
  "colorScale (Number visitCount) =
     (let k = min visitCount 5
      in Some (RGB (channel 209 16 k) (channel 244 185 k) (channel 224 129 k)))"
| "colorScale Text = None"
| "colorScale Member = None"

section \<open>GraphVisualizer (graph.js)\<close>

text \<open>
  \<open>visitCounts\<close> is a plain object: the map holds its own keys, and a read of any other
  key that names an inherited member gives that member.
\<close>

record graph_visualizer =
  graph :: "g6graph option"
  models :: "model list"
  visitCounts :: "string \<rightharpoonup> js_count"
  currentStepId :: "string option"
  failedStepId :: "string option"
  layoutDirection :: string

definition GraphVisualizer_new :: graph_visualizer where
  "GraphVisualizer_new =
     \<lparr> graph = None, models = [], visitCounts = Map.empty, currentStepId = None,
       failedStepId = None, layoutDirection = ''TB'' \<rparr>"

definition initialize :: "graph_visualizer \<Rightarrow> graph_visualizer" where
  "initialize s = s\<lparr>graph := Some g6_empty\<rparr>"

definition renderGraph :: "graph_visualizer \<Rightarrow> graph_visualizer result" where
  "renderGraph s =
     (case graph s of
        None \<Rightarrow> Inr s
      | Some g \<Rightarrow>
          if models s = [] then Inr s
          else (let graphData = convertModelsToG6Data (models s);
                    s1 = s\<lparr>graph := Some (g6_render graphData)\<rparr>
                in if returned (render_items graphData) then Inr s1 else Inl (TypeError, s1)))"

definition setModels :: "model list \<Rightarrow> graph_visualizer \<Rightarrow> graph_visualizer result" where
  "setModels modelsData s =
     renderGraph (s\<lparr>models := modelsData, visitCounts := Map.empty,
                    currentStepId := None, failedStepId := None\<rparr>)"

text \<open>\<open>this.visitCounts[id] || 0\<close>\<close>

definition visitCount :: "graph_visualizer \<Rightarrow> string \<Rightarrow> js_count" where
  "visitCount s i =
     (case visitCounts s i of
        Some v \<Rightarrow> v
      | None \<Rightarrow> if inherited i then Member else Number 0)"

definition color_style :: "item_type \<Rightarrow> colour option \<Rightarrow> style \<Rightarrow> style" where
  "color_style t c st =
     (case t of
        Node \<Rightarrow> st\<lparr>st_fill := c, st_stroke := c\<rparr>
      | Edge \<Rightarrow> st\<lparr>st_stroke := c, st_arrowFill := c\<rparr>)"

definition updateElementColor :: "string \<Rightarrow> graph_visualizer \<Rightarrow> graph_visualizer result" where
  "updateElementColor elementId s =
     (let color = colorScale (visitCount s elementId)
      in case graph s of
           None \<Rightarrow> Inl (TypeError, s)
         | Some g \<Rightarrow>
             (case findById g elementId of
                Undefined \<Rightarrow> Inr s
              | InheritedMember \<Rightarrow> Inl (TypeError, s)
              | ItemFound it \<Rightarrow>
                  Inr (s\<lparr>graph := Some (updateItem g elementId (color_style (getType it) color))\<rparr>)))"

definition highlight_style :: "bool \<Rightarrow> style \<Rightarrow> style" where
  "highlight_style highlight st =
     st\<lparr> st_lineWidth := (if highlight then 4 else 2),
         st_shadowColor := (if highlight then Some (RGB 59 130 246) else None),
         st_shadowBlur := (if highlight then 10 else 0) \<rparr>"

definition highlightElement :: "string \<Rightarrow> bool \<Rightarrow> graph_visualizer \<Rightarrow> graph_visualizer result" where
  "highlightElement elementId highlight s =
     (case graph s of
        None \<Rightarrow> Inl (TypeError, s)
      | Some g \<Rightarrow>
          (case findById g elementId of
             Undefined \<Rightarrow> Inr s
           | InheritedMember \<Rightarrow> Inl (TypeError, s)
           | ItemFound it \<Rightarrow>
               Inr (s\<lparr>graph := Some (updateItem g elementId (highlight_style highlight))\<rparr>)))"

text \<open>The failure colours: \<open>'#ef4444'\<close> and, for a node's stroke, \<open>'#dc2626'\<close>.\<close>

definition failed_style :: "item_type \<Rightarrow> style \<Rightarrow> style" where
  "failed_style t st =
     (case t of
        Node \<Rightarrow> st\<lparr>st_fill := Some (RGB 239 68 68), st_stroke := Some (RGB 220 38 38)\<rparr>
      | Edge \<Rightarrow> st\<lparr>st_stroke := Some (RGB 239 68 68),
                   st_arrowFill := Some (RGB 239 68 68)\<rparr>)"

definition markElementAsFailed :: "string \<Rightarrow> graph_visualizer \<Rightarrow> graph_visualizer result" where
  "markElementAsFailed elementId s =
     (let s1 = s\<lparr>failedStepId := Some elementId\<rparr>
      in case graph s1 of
           None \<Rightarrow> Inl (TypeError, s1)
         | Some g \<Rightarrow>
             (case findById g elementId of
                Undefined \<Rightarrow> Inr s1
              | InheritedMember \<Rightarrow> Inl (TypeError, s1)
              | ItemFound it \<Rightarrow>
                  Inr (s1\<lparr>graph := Some (updateItem g elementId (failed_style (getType it)))\<rparr>)))"

text \<open>
  \<open>updateStep\<close> is called with a string; \<open>!stepId\<close> holds for the empty string. The
  statements after the three guards, in the order of the source: un-highlight the
  previous step, count the visit, set the current step, recolour, highlight. The
  third guard, \<open>!item\<close>, lets an inherited member pass. The assignment
  \<open>this.visitCounts[stepId] = ...\<close> creates an own key, except for \<open>__proto__\<close>, where
  assigning a value that is no object changes nothing.
\<close>

definition unhighlight_previous :: "graph_visualizer \<Rightarrow> graph_visualizer result" where
  "unhighlight_previous s =
     (case currentStepId s of
        None \<Rightarrow> Inr s
      | Some c \<Rightarrow> if c \<noteq> [] then highlightElement c False s else Inr s)"

definition count_visit :: "string \<Rightarrow> graph_visualizer \<Rightarrow> graph_visualizer" where
  "count_visit stepId s =
     (if stepId = ''__proto__'' then s
      else s\<lparr>visitCounts := (visitCounts s)(stepId \<mapsto> plus_one (visitCount s stepId))\<rparr>)"

definition updateStep :: "string \<Rightarrow> graph_visualizer \<Rightarrow> graph_visualizer result" where
  "updateStep stepId s =
     (case graph s of
        None \<Rightarrow> Inr s
      | Some g \<Rightarrow>
          if stepId = [] then Inr s
          else (case findById g stepId of
                  Undefined \<Rightarrow> Inr s
                | _ \<Rightarrow>
                    (case unhighlight_previous s of
                       Inl e \<Rightarrow> Inl e
                     | Inr s1 \<Rightarrow>
                         (let s2 = count_visit stepId s1;
                              s3 = s2\<lparr>currentStepId := Some stepId\<rparr>
                          in case updateElementColor stepId s3 of
                               Inl e \<Rightarrow> Inl e
                             | Inr s4 \<Rightarrow> highlightElement stepId True s4))))"

definition updateLayout :: "string \<Rightarrow> graph_visualizer \<Rightarrow> graph_visualizer" where
  "updateLayout direction s = s\<lparr>layoutDirection := direction\<rparr>"

definition clear :: "graph_visualizer \<Rightarrow> graph_visualizer" where
  "clear s =
     (let s1 = (case graph s of None \<Rightarrow> s | Some g \<Rightarrow> s\<lparr>graph := Some g6_empty\<rparr>)
      in s1\<lparr>visitCounts := Map.empty, currentStepId := None, failedStepId := None\<rparr>)"


section \<open>Inbound messages\<close>

text \<open>
  The fields the handlers read, each absent or present. \<open>step.data\<close> is an arbitrary
  object; it is carried as the text \<open>JSON.stringify(data, null, 2)\<close> gives for it.
  Numbers are the integers the statistics carry.
\<close>

record step =
  step_id :: "string option"
  step_name :: "string option"
  step_modelName :: "string option"
  step_data :: "string option"

record error_info =
  err_message :: "string option"
  err_trace :: "string option"

record step_result =
  res_id :: "string option"
  res_output :: "string option"
  res_error :: "error_info option"

record statistics =
  totalNumberOfModels :: "int option"
  totalCompletedNumberOfModels :: "int option"
  totalFailedNumberOfModels :: "int option"
  edgeCoverage :: "int option"
  totalNumberOfVisitedEdges :: "int option"
  totalNumberOfUnvisitedEdges :: "int option"
  vertexCoverage :: "int option"
  totalNumberOfVisitedVertices :: "int option"
  totalNumberOfUnvisitedVertices :: "int option"

record message =
  msg_type :: "string option"
  msg_models :: "model list option"
  msg_step :: "step option"
  msg_result :: "step_result option"
  msg_status :: "bool option"
  msg_statistics :: "statistics option"
  msg_message :: "string option"
  msg_trace :: "string option"

section \<open>UIManager (ui.js)\<close>

text \<open>
  The state of the page elements the handlers write: whether an overlay or section
  carries the class \<open>hidden\<close>, the \<open>value\<close> of a text field, the \<open>textContent\<close> and
  \<open>className\<close> of a statistics cell. A cell whose text is a number holds the number;
  a coverage cell, whose text is the number followed by \<open>%\<close>, holds the number too.
\<close>

record ui_manager =
  setupOverlay_hidden :: bool
  settingsOverlay_hidden :: bool
  errorAlert_hidden :: bool
  currentStepSection_hidden :: bool
  statisticsSection_hidden :: bool
  stepName_value :: string
  stepId_value :: string
  stepModel_value :: string
  stepData_value :: string
  outputText_value :: string
  errorMessage_value :: string
  errorTrace_value :: string
  statsStatus_text :: string
  statsStatus_class :: string
  statsModelsTotal :: int
  statsModelsCompleted :: int
  statsModelsFailed :: int
  statsEdgeCoverage_percent :: int
  statsEdgeCoverage_class :: string
  statsEdgesVisited :: int
  statsEdgesUnvisited :: int
  statsVertexCoverage_percent :: int
  statsVertexCoverage_class :: string
  statsVerticesVisited :: int
  statsVerticesUnvisited :: int

text \<open>\<open>s || ''\<close> and \<open>n || 0\<close>\<close>

definition str_or :: "string option \<Rightarrow> string \<Rightarrow> string" where
  "str_or v d = (case v of None \<Rightarrow> d | Some s \<Rightarrow> if s \<noteq> [] then s else d)"

definition num_or0 :: "int option \<Rightarrow> int" where
  "num_or0 v = (case v of None \<Rightarrow> 0 | Some n \<Rightarrow> if n \<noteq> 0 then n else 0)"

definition hideError :: "ui_manager \<Rightarrow> ui_manager" where
  "hideError u = u\<lparr>errorAlert_hidden := True\<rparr>"

definition hideSetupOverlay :: "ui_manager \<Rightarrow> ui_manager" where
  "hideSetupOverlay u = hideError (u\<lparr>setupOverlay_hidden := True\<rparr>)"

definition hideSettings :: "ui_manager \<Rightarrow> ui_manager" where
  "hideSettings u = u\<lparr>settingsOverlay_hidden := True\<rparr>"

definition showCurrentStepSection :: "ui_manager \<Rightarrow> ui_manager" where
  "showCurrentStepSection u = u\<lparr>currentStepSection_hidden := False\<rparr>"

definition hideCurrentStepSection :: "ui_manager \<Rightarrow> ui_manager" where
  "hideCurrentStepSection u = u\<lparr>currentStepSection_hidden := True\<rparr>"

definition showStatisticsSection :: "ui_manager \<Rightarrow> ui_manager" where
  "showStatisticsSection u = u\<lparr>statisticsSection_hidden := False\<rparr>"

definition hideStatisticsSection :: "ui_manager \<Rightarrow> ui_manager" where
  "hideStatisticsSection u = u\<lparr>statisticsSection_hidden := True\<rparr>"

definition updateStepInfo :: "step \<Rightarrow> ui_manager \<Rightarrow> ui_manager" where
  "updateStepInfo st u =
     u\<lparr> stepName_value := str_or (step_name st) [],
        stepId_value := str_or (step_id st) [],
        stepModel_value := str_or (step_modelName st) [],
        stepData_value := (case step_data st of None \<Rightarrow> ''{}'' | Some d \<Rightarrow> d) \<rparr>"

definition appendOutput :: "string \<Rightarrow> ui_manager \<Rightarrow> ui_manager" where
  "appendOutput t u = u\<lparr>outputText_value := outputText_value u @ t @ [CHR 0x0A]\<rparr>"

definition clearOutput :: "ui_manager \<Rightarrow> ui_manager" where
  "clearOutput u = u\<lparr>outputText_value := []\<rparr>"

definition updateError :: "string \<Rightarrow> string \<Rightarrow> ui_manager \<Rightarrow> ui_manager" where
  "updateError m t u = u\<lparr>errorMessage_value := m, errorTrace_value := t\<rparr>"

definition clearError :: "ui_manager \<Rightarrow> ui_manager" where
  "clearError u = u\<lparr>errorMessage_value := [], errorTrace_value := []\<rparr>"

definition getCoverageClass :: "int \<Rightarrow> string" where
  "getCoverageClass percentage =
     (if percentage \<ge> 80 then ''bg-green-100 text-green-800''
      else if percentage \<ge> 50 then ''bg-yellow-100 text-yellow-800''
      else ''bg-red-100 text-red-800'')"

text \<open>
  \<open>updateStatistics\<close> receives one object: the \<open>status\<close> of the end message and the
  fields of its \<open>statistics\<close>, here two arguments.
\<close>

definition updateStatistics :: "bool option \<Rightarrow> statistics \<Rightarrow> ui_manager \<Rightarrow> ui_manager" where
  "updateStatistics status st u =
     (let u1 = (case status of
                  None \<Rightarrow> u
                | Some b \<Rightarrow>
                    u\<lparr> statsStatus_text := (if b then ''Passed'' else ''Failed''),
                       statsStatus_class := ''px-3 py-1 rounded-full text-sm font-medium '' @
                         (if b then ''bg-green-100 text-green-800''
                          else ''bg-red-100 text-red-800'') \<rparr>);
          edgeCov = num_or0 (edgeCoverage st);
          vertexCov = num_or0 (vertexCoverage st)
      in u1\<lparr> statsModelsTotal := num_or0 (totalNumberOfModels st),
             statsModelsCompleted := num_or0 (totalCompletedNumberOfModels st),
             statsModelsFailed := num_or0 (totalFailedNumberOfModels st),
             statsEdgeCoverage_percent := edgeCov,
             statsEdgeCoverage_class :=
               ''px-2 py-1 rounded text-xs font-medium '' @ getCoverageClass edgeCov,
             statsEdgesVisited := num_or0 (totalNumberOfVisitedEdges st),
             statsEdgesUnvisited := num_or0 (totalNumberOfUnvisitedEdges st),
             statsVertexCoverage_percent := vertexCov,
             statsVertexCoverage_class :=
               ''px-2 py-1 rounded text-xs font-medium '' @ getCoverageClass vertexCov,
             statsVerticesVisited := num_or0 (totalNumberOfVisitedVertices st),
             statsVerticesUnvisited := num_or0 (totalNumberOfUnvisitedVertices st) \<rparr>)"

section \<open>WebSocketClient (ui.js) and the application (main.js)\<close>

text \<open>
  The five handler functions of main.js, by name. \<open>messageHandlers\<close> is a plain object:
  the map holds its own keys, each \<open>null\<close> (\<open>Some None\<close>) or a handler; any other key
  reads \<open>undefined\<close> or, when it names one, an inherited member. Of the console, the
  lines of the client's \<open>onmessage\<close> and \<open>handleMessage\<close> are kept.
\<close>

datatype handler =
  HandleStart | HandleStepStart | HandleStepEnd | HandleEnd | HandleError

datatype log_entry =
  Received "string option"
| ErrorParsing js_error
| Unhandled "string option"

record ws_client =
  messageHandlers :: "string \<rightharpoonup> handler option"
  console :: "log_entry list"

definition WebSocketClient_new :: ws_client where
  "WebSocketClient_new =
     \<lparr> messageHandlers =
         [''start'' \<mapsto> None, ''step-start'' \<mapsto> None, ''step-end'' \<mapsto> None,
          ''end'' \<mapsto> None, ''error'' \<mapsto> None],
       console = [] \<rparr>"

definition on :: "string \<Rightarrow> handler \<Rightarrow> ws_client \<Rightarrow> ws_client" where
  "on messageType h c =
     (case messageHandlers c messageType of
        None \<Rightarrow> c
      | Some old \<Rightarrow> c\<lparr>messageHandlers := (messageHandlers c)(messageType \<mapsto> Some h)\<rparr>)"

record app =
  gv :: graph_visualizer
  ws :: ws_client
  ui :: ui_manager
  isRunning :: bool

text \<open>A visualizer call made from a handler: the exception, if any, propagates.\<close>

definition with_gv :: "app \<Rightarrow> graph_visualizer result \<Rightarrow> app result" where
  "with_gv a r = (case r of Inl (e, g) \<Rightarrow> Inl (e, a\<lparr>gv := g\<rparr>) | Inr g \<Rightarrow> Inr (a\<lparr>gv := g\<rparr>))"

text \<open>\<open>try { ... } catch (error) { console.error(...) }\<close> inside a handler.\<close>

definition caught :: "app result \<Rightarrow> app result" where
  "caught r = (case r of Inl (e, a) \<Rightarrow> Inr a | Inr a \<Rightarrow> Inr a)"

definition handleStartMessage :: "message \<Rightarrow> app \<Rightarrow> app result" where
  "handleStartMessage m a =
     (let a1 = a\<lparr>ui := hideStatisticsSection (showCurrentStepSection
                   (clearError (clearOutput (hideSetupOverlay (ui a)))))\<rparr>;
          a2 = (case msg_models m of
                  None \<Rightarrow> a1
                | Some ms \<Rightarrow>
                    if length ms > 0 then state_of (caught (with_gv a1 (setModels ms (gv a1))))
                    else a1)
      in Inr (a2\<lparr>isRunning := True\<rparr>))"

definition handleStepStartMessage :: "message \<Rightarrow> app \<Rightarrow> app result" where
  "handleStepStartMessage m a =
     (case msg_step m of
        None \<Rightarrow> Inl (TypeError, a)
      | Some st \<Rightarrow>
          (let a1 = a\<lparr>ui := updateStepInfo st (ui a)\<rparr>
           in if truthy (step_id st) then with_gv a1 (updateStep (the (step_id st)) (gv a1))
              else if truthy (step_name st)
                then caught (with_gv a1 (updateStep (the (step_name st)) (gv a1)))
              else Inr a1))"

definition handleStepEndMessage :: "message \<Rightarrow> app \<Rightarrow> app result" where
  "handleStepEndMessage m a =
     (case msg_result m of
        None \<Rightarrow> Inl (TypeError, a)
      | Some r \<Rightarrow>
          (let a1 = (if truthy (res_output r)
                     then a\<lparr>ui := appendOutput (the (res_output r)) (ui a)\<rparr> else a)
           in case res_error r of
                None \<Rightarrow> Inr a1
              | Some err \<Rightarrow>
                  (let errorMsg = str_or (err_message err) ''Unknown error'';
                       errorTrace = str_or (err_trace err) [];
                       a2 = a1\<lparr>ui := updateError errorMsg errorTrace (ui a1)\<rparr>
                   in if truthy (res_id r)
                      then with_gv a2 (markElementAsFailed (the (res_id r)) (gv a2))
                      else Inr a2)))"

definition no_statistics :: statistics where
  "no_statistics =
     \<lparr> totalNumberOfModels = None, totalCompletedNumberOfModels = None,
       totalFailedNumberOfModels = None, edgeCoverage = None,
       totalNumberOfVisitedEdges = None, totalNumberOfUnvisitedEdges = None,
       vertexCoverage = None, totalNumberOfVisitedVertices = None,
       totalNumberOfUnvisitedVertices = None \<rparr>"

definition handleEndMessage :: "message \<Rightarrow> app \<Rightarrow> app result" where
  "handleEndMessage m a =
     (let u1 = showStatisticsSection (hideCurrentStepSection (ui a));
          u2 = (case msg_statistics m of
                  Some st \<Rightarrow> updateStatistics (msg_status m) st u1
                | None \<Rightarrow> updateStatistics (msg_status m) no_statistics u1);
          u3 = appendOutput (CHR 0x0A # ''=== Test Execution Completed ==='') u2
      in Inr (a\<lparr>ui := u3, isRunning := False\<rparr>))"

definition handleErrorMessage :: "message \<Rightarrow> app \<Rightarrow> app result" where
  "handleErrorMessage m a =
     (let errorMsg = str_or (msg_message m) ''Unknown error'';
          errorTrace = str_or (msg_trace m) [];
          a1 = a\<lparr>ui := updateError errorMsg errorTrace (ui a)\<rparr>
      in case msg_step m of
           None \<Rightarrow> Inr a1
         | Some st \<Rightarrow>
             if truthy (step_id st)
             then with_gv a1 (markElementAsFailed (the (step_id st)) (gv a1))
             else Inr a1)"

fun call_handler :: "handler \<Rightarrow> message \<Rightarrow> app \<Rightarrow> app result" where
  "call_handler HandleStart = handleStartMessage"
| "call_handler HandleStepStart = handleStepStartMessage"
| "call_handler HandleStepEnd = handleStepEndMessage"
| "call_handler HandleEnd = handleEndMessage"
| "call_handler HandleError = handleErrorMessage"

definition log_line :: "log_entry \<Rightarrow> app \<Rightarrow> app" where
  "log_line l a = a\<lparr>ws := (ws a)\<lparr>console := console (ws a) @ [l]\<rparr>\<rparr>"

text \<open>
  \<open>this.messageHandlers[type]\<close>, as far as \<open>handler && typeof handler === 'function'\<close>
  tells it apart: no function (\<open>undefined\<close>, \<open>null\<close>, or the prototype object that
  \<open>__proto__\<close> reads), a handler of main.js, or an inherited function.
\<close>

datatype handler_value = NoFunction | MainFunction handler | MemberFunction string

definition handler_for :: "ws_client \<Rightarrow> string option \<Rightarrow> handler_value" where
  "handler_for c t =
     (case t of
        None \<Rightarrow> NoFunction
      | Some k \<Rightarrow>
          (case messageHandlers c k of
             Some (Some h) \<Rightarrow> MainFunction h
           | Some None \<Rightarrow> NoFunction
           | None \<Rightarrow>
               if inherited k \<and> k \<noteq> ''__proto__'' then MemberFunction k else NoFunction))"

text \<open>
  \<open>handler(message)\<close> for an inherited function, called without a receiver in strict
  code: \<open>Object(message)\<close> and \<open>toString\<close> return a value; every other member converts
  its undefined receiver to an object and throws a TypeError. None touches the state.
\<close>

definition call_member :: "string \<Rightarrow> app \<Rightarrow> app result" where
  "call_member k a =
     (if k = ''constructor'' \<or> k = ''toString'' then Inr a else Inl (TypeError, a))"


definition handleMessage :: "message \<Rightarrow> app \<Rightarrow> app result" where
  "handleMessage m a =
     (case handler_for (ws a) (msg_type m) of
        MainFunction h \<Rightarrow> call_handler h m a
      | MemberFunction k \<Rightarrow> call_member k a
      | NoFunction \<Rightarrow> Inr (log_line (Unhandled (msg_type m)) a))"

text \<open>
  \<open>JSON.parse\<close> is a parameter: it fails (\<open>None\<close>, a SyntaxError), or gives \<open>null\<close>, or
  gives a value whose properties can be read. A number, string, boolean or array reads
  like an object with none of the fields.
\<close>

datatype parsed = JsonNull | JsonObject message

definition onmessage :: "(string \<Rightarrow> parsed option) \<Rightarrow> string \<Rightarrow> app \<Rightarrow> app" where
  "onmessage parse event_data a =
     (case parse event_data of
        None \<Rightarrow> log_line (ErrorParsing SyntaxError) a
      | Some JsonNull \<Rightarrow> log_line (ErrorParsing TypeError) a
      | Some (JsonObject m) \<Rightarrow>
          (case handleMessage m (log_line (Received (msg_type m)) a) of
             Inl (e, a') \<Rightarrow> log_line (ErrorParsing e) a'
           | Inr a' \<Rightarrow> a'))"

definition setupWebSocketHandlers :: "app \<Rightarrow> app" where
  "setupWebSocketHandlers a =
     a\<lparr>ws := on ''error'' HandleError (on ''end'' HandleEnd (on ''step-end'' HandleStepEnd
              (on ''step-start'' HandleStepStart (on ''start'' HandleStart (ws a)))))\<rparr>"

text \<open>The globals as the script creates them, over the page as loaded, and \<open>init()\<close>.\<close>

definition app_new :: "ui_manager \<Rightarrow> app" where
  "app_new page =
     \<lparr> gv = GraphVisualizer_new, ws = WebSocketClient_new, ui = page, isRunning = False \<rparr>"

definition init :: "app \<Rightarrow> app" where
  "init a = setupWebSocketHandlers (a\<lparr>gv := initialize (gv a)\<rparr>)"

definition saveSettings :: "string \<Rightarrow> app \<Rightarrow> app" where
  "saveSettings direction a =
     a\<lparr>gv := updateLayout direction (gv a), ui := hideSettings (ui a)\<rparr>"

text \<open>
  The states the application reaches: \<open>init\<close>, then any inbound payloads and any saving
  of the layout setting, one at a time (the page is single-threaded).
\<close>

inductive reachable :: "(string \<Rightarrow> parsed option) \<Rightarrow> ui_manager \<Rightarrow> app \<Rightarrow> bool"
  for parse :: "string \<Rightarrow> parsed option" and page :: ui_manager where
  reachable_init: "reachable parse page (init (app_new page))"
| reachable_message: "reachable parse page a \<Longrightarrow> reachable parse page (onmessage parse d a)"
| reachable_settings: "reachable parse page a \<Longrightarrow> reachable parse page (saveSettings direction a)"

section \<open>Notions the properties are stated with\<close>

text \<open>
  An identifier resolves when it is not empty and the graph has an item with it: it
  names an element of the graph.
\<close>

definition resolves :: "graph_visualizer \<Rightarrow> string \<Rightarrow> bool" where
  "resolves s i =
     (case graph s of None \<Rightarrow> False | Some g \<Rightarrow> i \<noteq> [] \<and> own_item g i \<noteq> None)"

text \<open>
  An identifier passes the guards of \<open>updateStep\<close> when \<open>findById\<close> gives anything but
  \<open>undefined\<close>: an item, or an inherited member of the item map.
\<close>

definition passes_guards :: "graph_visualizer \<Rightarrow> string \<Rightarrow> bool" where
  "passes_guards s i =
     (case graph s of None \<Rightarrow> False | Some g \<Rightarrow> i \<noteq> [] \<and> findById g i \<noteq> Undefined)"

text \<open>
  An item carries the highlight of the current step when its line width is the 4 that
  \<open>highlightElement\<close> sets with \<open>highlight = true\<close> (\<open>shadowColor\<close> and \<open>shadowBlur\<close> are
  always set together with it).
\<close>

definition isHighlighted :: "item \<Rightarrow> bool" where
  "isHighlighted it = (st_lineWidth (it_style it) = 4)"

definition highlighted :: "graph_visualizer \<Rightarrow> item list" where
  "highlighted s = (case graph s of None \<Rightarrow> [] | Some g \<Rightarrow> filter isHighlighted (items g))"

text \<open>
  The visualizer states during one \<open>updateStep\<close> that passes the guards, one after each
  statement it executes: after un-highlighting the previous step, after counting, after
  setting \<open>currentStepId\<close>, after recolouring, after highlighting. A statement that
  throws ends the list with the state it leaves.
\<close>

definition updateStep_phases :: "string \<Rightarrow> graph_visualizer \<Rightarrow> graph_visualizer list" where
  "updateStep_phases stepId s =
     (if passes_guards s stepId
      then (case unhighlight_previous s of
              Inl (e, s1) \<Rightarrow> [s1]
            | Inr s1 \<Rightarrow>
                (let s2 = count_visit stepId s1;
                     s3 = s2\<lparr>currentStepId := Some stepId\<rparr>
                 in case updateElementColor stepId s3 of
                      Inl (e, s4) \<Rightarrow> [s1, s2, s3, s4]
                    | Inr s4 \<Rightarrow> [s1, s2, s3, s4, state_of (highlightElement stepId True s4)]))
      else [])"

text \<open>
  In a list of items, at most the first item with identifier \<open>c\<close> is highlighted. With
  the current step \<open>c\<close> this is what the visualizer maintains.
\<close>

fun only_first_highlighted :: "string \<Rightarrow> item list \<Rightarrow> bool" where
  "only_first_highlighted c [] = True"
| "only_first_highlighted c (it # its) =
     (if item_id it = Some c then filter isHighlighted its = []
      else \<not> isHighlighted it \<and> only_first_highlighted c its)"

definition highlight_inv :: "graph_visualizer \<Rightarrow> bool" where
  "highlight_inv s =
     (case graph s of
        None \<Rightarrow> False
      | Some g \<Rightarrow>
          (case currentStepId s of
             None \<Rightarrow> filter isHighlighted (items g) = []
           | Some c \<Rightarrow> c \<noteq> [] \<and> only_first_highlighted c (items g)))"

text \<open>
  Neither the current step nor any key that names no inherited member has anything
  but a number for its count.
\<close>

definition plain_counts :: "graph_visualizer \<Rightarrow> bool" where
  "plain_counts s \<longleftrightarrow>
     (case currentStepId s of None \<Rightarrow> True | Some c \<Rightarrow> \<not> inherited c)
     \<and> (\<forall>e. \<not> inherited e \<longrightarrow> (\<exists>n. visitCount s e = Number n))"

text \<open>An item shows the failure colours \<open>markElementAsFailed\<close> sets for its type.\<close>

definition has_failed_style :: "item \<Rightarrow> bool" where
  "has_failed_style it =
     (case getType it of
        Node \<Rightarrow> st_fill (it_style it) = Some (RGB 239 68 68) \<and>
                st_stroke (it_style it) = Some (RGB 220 38 38)
      | Edge \<Rightarrow> st_stroke (it_style it) = Some (RGB 239 68 68) \<and>
                st_arrowFill (it_style it) = Some (RGB 239 68 68))"

text \<open>An item shows the colour \<open>c\<close> (or none, for \<open>undefined\<close>) as \<open>updateElementColor\<close>
  sets it for its type.\<close>

definition has_visit_style :: "item \<Rightarrow> colour option \<Rightarrow> bool" where
  "has_visit_style it c =
     (case getType it of
        Node \<Rightarrow> st_fill (it_style it) = c \<and> st_stroke (it_style it) = c
      | Edge \<Rightarrow> st_stroke (it_style it) = c \<and> st_arrowFill (it_style it) = c)"

text \<open>The item found for \<open>i\<close> shows the failure colours.\<close>

definition failed_colour_on :: "graph_visualizer \<Rightarrow> string \<Rightarrow> bool" where
  "failed_colour_on s i =
     (case graph s of
        None \<Rightarrow> False
      | Some g \<Rightarrow> (case own_item g i of None \<Rightarrow> False | Some it \<Rightarrow> has_failed_style it))"

text \<open>The item found for \<open>i\<close> shows the colour \<open>c\<close>.\<close>

definition visit_colour_on :: "graph_visualizer \<Rightarrow> string \<Rightarrow> colour option \<Rightarrow> bool" where
  "visit_colour_on s i c =
     (case graph s of
        None \<Rightarrow> False
      | Some g \<Rightarrow> (case own_item g i of None \<Rightarrow> False | Some it \<Rightarrow> has_visit_style it c))"

text \<open>
  The calls that change an item's style, as a value, and a run of them, each made in
  the state the previous one left, whether that returned or threw: every call comes
  from a handler, and the client's \<open>onmessage\<close> catches what a handler throws. A call
  recolours \<open>e\<close> when it is a visit or a colour update of \<open>e\<close> itself.
\<close>

datatype gv_call =
  UpdateStep string
| UpdateElementColor string
| HighlightElement string bool
| MarkElementAsFailed string

fun do_call :: "gv_call \<Rightarrow> graph_visualizer \<Rightarrow> graph_visualizer result" where
  "do_call (UpdateStep x) s = updateStep x s"
| "do_call (UpdateElementColor x) s = updateElementColor x s"
| "do_call (HighlightElement x b) s = highlightElement x b s"
| "do_call (MarkElementAsFailed x) s = markElementAsFailed x s"

fun do_calls :: "gv_call list \<Rightarrow> graph_visualizer \<Rightarrow> graph_visualizer" where
  "do_calls [] s = s"
| "do_calls (c # cs) s = do_calls cs (state_of (do_call c s))"

text \<open>A run of visits, in the same way.\<close>

fun updateSteps :: "string list \<Rightarrow> graph_visualizer \<Rightarrow> graph_visualizer" where
  "updateSteps [] s = s"
| "updateSteps (i # is) s = updateSteps is (state_of (updateStep i s))"

fun recolours :: "gv_call \<Rightarrow> string \<Rightarrow> bool" where
  "recolours (UpdateStep x) e = (x = e)"
| "recolours (UpdateElementColor x) e = (x = e)"
| "recolours (HighlightElement x b) e = False"
| "recolours (MarkElementAsFailed x) e = False"

text \<open>
  What processing one inbound payload can do to the visualizer: nothing, a
  \<open>setModels\<close> with a non-empty list, one \<open>updateStep\<close>, or one \<open>markElementAsFailed\<close>.
\<close>

definition gv_step :: "graph_visualizer \<Rightarrow> graph_visualizer \<Rightarrow> bool" where
  "gv_step s s' \<longleftrightarrow>
     s' = s \<or> (\<exists>ms. ms \<noteq> [] \<and> s' = state_of (setModels ms s))
     \<or> (\<exists>i. s' = state_of (updateStep i s))
     \<or> (\<exists>i. s' = state_of (markElementAsFailed i s))"

text \<open>
  The percentage in the words of the specification: \<open>round(visited / total * 100)\<close> when
  \<open>total > 0\<close>, else 0. \<open>round\<close> rounds halves upwards, as \<open>Math.round\<close> does.
\<close>

definition spec_percentage :: "int \<Rightarrow> int \<Rightarrow> int" where
  "spec_percentage visited tot =
     (if tot > 0 then round (real_of_int visited / real_of_int tot * 100) else 0)"

section \<open>Example data\<close>

text \<open>
  The example run of the specification: one sub-model with the vertices \<open>v1\<close> (\<open>A\<close>) and
  \<open>v2\<close> (\<open>B\<close>) and the edge \<open>e1\<close> (\<open>go\<close>) from \<open>v1\<close> to \<open>v2\<close>; and the same with a second
  edge whose target \<open>v9\<close> is no vertex of the sub-model.
\<close>

definition ex_vertex_A :: vertex where
  "ex_vertex_A = \<lparr> vertex_id = Some ''v1'', vertex_name = Some ''A'' \<rparr>"

definition ex_vertex_B :: vertex where
  "ex_vertex_B = \<lparr> vertex_id = Some ''v2'', vertex_name = Some ''B'' \<rparr>"

definition ex_edge_go :: edge where
  "ex_edge_go = \<lparr> edge_id = Some ''e1'', edge_name = Some ''go'',
                  sourceVertexId = Some ''v1'', targetVertexId = Some ''v2'' \<rparr>"

definition ex_edge_dangling :: edge where
  "ex_edge_dangling = \<lparr> edge_id = Some ''e2'', edge_name = Some ''lost'',
                        sourceVertexId = Some ''v1'', targetVertexId = Some ''v9'' \<rparr>"

definition ex_model :: model where
  "ex_model = Model None None (Some [ex_vertex_A, ex_vertex_B]) (Some [ex_edge_go])"

definition ex_model_dangling :: model where
  "ex_model_dangling =
     Model None None (Some [ex_vertex_A, ex_vertex_B]) (Some [ex_edge_go, ex_edge_dangling])"

definition ex_model_named :: model where
  "ex_model_named = Model (Some ''Login'') None (Some [ex_vertex_A]) None"

text \<open>A visualizer after \<open>initialize\<close> and \<open>setModels\<close> with the example model.\<close>

definition ex_visualizer :: graph_visualizer where
  "ex_visualizer = state_of (setModels [ex_model] (initialize GraphVisualizer_new))"

text \<open>A page with every section hidden and every field empty.\<close>

definition ex_page :: ui_manager where
  "ex_page =
     \<lparr> setupOverlay_hidden = False, settingsOverlay_hidden = True, errorAlert_hidden = True,
       currentStepSection_hidden = True, statisticsSection_hidden = True,
       stepName_value = [], stepId_value = [], stepModel_value = [], stepData_value = [],
       outputText_value = [], errorMessage_value = [], errorTrace_value = [],
       statsStatus_text = [], statsStatus_class = [],
       statsModelsTotal = 0, statsModelsCompleted = 0, statsModelsFailed = 0,
       statsEdgeCoverage_percent = 0, statsEdgeCoverage_class = [],
       statsEdgesVisited = 0, statsEdgesUnvisited = 0,
       statsVertexCoverage_percent = 0, statsVertexCoverage_class = [],
       statsVerticesVisited = 0, statsVerticesUnvisited = 0 \<rparr>"

definition ex_app :: app where
  "ex_app = init (app_new ex_page)"

definition no_message :: message where
  "no_message =
     \<lparr> msg_type = None, msg_models = None, msg_step = None, msg_result = None,
       msg_status = None, msg_statistics = None, msg_message = None, msg_trace = None \<rparr>"

text \<open>End-of-run statistics with two of three edges visited and a coverage figure of 66.\<close>

definition ex_statistics :: statistics where
  "ex_statistics =
     no_statistics\<lparr> edgeCoverage := Some 66, totalNumberOfVisitedEdges := Some 2,
                    totalNumberOfUnvisitedEdges := Some 1 \<rparr>"

text \<open>The messages of a small run, and a stand-in for \<open>JSON.parse\<close> on their payloads,
  each payload named by a short text.\<close>

definition ex_start :: message where
  "ex_start = no_message\<lparr> msg_type := Some ''start'', msg_models := Some [ex_model] \<rparr>"

definition ex_start_empty :: message where
  "ex_start_empty = no_message\<lparr> msg_type := Some ''start'', msg_models := Some [] \<rparr>"

definition ex_step_A :: message where
  "ex_step_A = no_message\<lparr> msg_type := Some ''step-start'',
     msg_step := Some \<lparr> step_id = None, step_name = Some ''A'', step_modelName = None,
                        step_data = None \<rparr> \<rparr>"

definition ex_step_B :: message where
  "ex_step_B = no_message\<lparr> msg_type := Some ''step-start'',
     msg_step := Some \<lparr> step_id = None, step_name = Some ''B'', step_modelName = None,
                        step_data = None \<rparr> \<rparr>"

text \<open>A step whose identifier names an inherited member of a plain object.\<close>

definition ex_step_constructor :: message where
  "ex_step_constructor = no_message\<lparr> msg_type := Some ''step-start'',
     msg_step := Some \<lparr> step_id = Some ''constructor'', step_name = Some ''constructor'',
                        step_modelName = None, step_data = None \<rparr> \<rparr>"

definition ex_end :: message where
  "ex_end = no_message\<lparr> msg_type := Some ''end'', msg_status := Some True,
     msg_statistics := Some ex_statistics \<rparr>"

definition ex_ping :: message where
  "ex_ping = no_message\<lparr> msg_type := Some ''ping'' \<rparr>"

definition ex_toString :: message where
  "ex_toString = no_message\<lparr> msg_type := Some ''toString'' \<rparr>"

definition ex_valueOf :: message where
  "ex_valueOf = no_message\<lparr> msg_type := Some ''valueOf'' \<rparr>"

definition ex_parse :: "string \<Rightarrow> parsed option" where
  "ex_parse d =
     (if d = ''start'' then Some (JsonObject ex_start)
      else if d = ''start-empty'' then Some (JsonObject ex_start_empty)
      else if d = ''step-A'' then Some (JsonObject ex_step_A)
      else if d = ''step-B'' then Some (JsonObject ex_step_B)
      else if d = ''step-constructor'' then Some (JsonObject ex_step_constructor)
      else if d = ''end'' then Some (JsonObject ex_end)
      else if d = ''ping'' then Some (JsonObject ex_ping)
      else if d = ''toString'' then Some (JsonObject ex_toString)
      else if d = ''valueOf'' then Some (JsonObject ex_valueOf)
      else if d = ''null'' then Some JsonNull
      else None)"

text \<open>The application after a start and one step, and after the end of that run.\<close>

definition ex_app_running :: app where
  "ex_app_running = onmessage ex_parse ''step-A'' (onmessage ex_parse ''start'' ex_app)"

definition ex_app_ended :: app where
  "ex_app_ended = onmessage ex_parse ''end'' ex_app_running"

section \<open>The model adapter\<close>

lemma edges_push_submodel:
  "edges (push_submodel mn acc am) =
     edges acc @ (case model_edges am of None \<Rightarrow> [] | Some es \<Rightarrow> map (edge_of mn am) es)"
  by (simp add: push_submodel_def Let_def split: option.splits)

lemma edges_foldl_push_submodel:
  "edges (foldl (push_submodel mn) acc ams) =
     edges acc @ concat (map (\<lambda>am. case model_edges am of None \<Rightarrow> []
                                   | Some es \<Rightarrow> map (edge_of mn am) es) ams)"
  by (induction ams arbitrary: acc) (simp_all add: edges_push_submodel)

text \<open>The edge list is the edges of all sub-models in traversal order; none is left out.\<close>

lemma edges_foldl_push_model:
  "edges (foldl push_model acc ms) =
     edges acc @ concat (map (\<lambda>m. concat (map (\<lambda>am. case model_edges am of None \<Rightarrow> []
         | Some es \<Rightarrow> map (edge_of (modelName_of m) am) es) (actualModels_of m))) ms)"
  by (induction ms arbitrary: acc) (simp_all add: push_model_def edges_foldl_push_submodel)

lemma endpoint_unmatched: "endpoint_of None r = r"
  by (simp add: endpoint_of_def)

lemmas ex_defs = ex_vertex_A_def ex_vertex_B_def ex_edge_go_def ex_edge_dangling_def
  ex_model_def ex_model_dangling_def ex_model_named_def

lemmas convert_defs = convertModelsToG6Data_def push_model_def push_submodel_def
  modelName_of_def actualModels_of_def node_of_def edge_of_def find_vertex_def endpoint_of_def
  js_or_def truthy_def Let_def

text \<open>
  C4, as stated: an edge whose target matches no vertex of its sub-model is excluded
  from the edge list. It fails on the example with the edge \<open>lost\<close> from \<open>v1\<close> to \<open>v9\<close>:
  the edge is in the list, its target the declared \<open>v9\<close>.
\<close>

theorem unresolved_edge_counterexample:
  "find_vertex ex_model_dangling (targetVertexId ex_edge_dangling) = None
   \<and> edges (convertModelsToG6Data [ex_model_dangling]) =
       [ \<lparr> e_id = Some ''go'', e_source = Some ''A'', e_target = Some ''B'',
            e_label = Some ''go'', e_originalId = Some ''e1'', e_modelName = ''default'' \<rparr>,
         \<lparr> e_id = Some ''lost'', e_source = Some ''A'', e_target = Some ''v9'',
            e_label = Some ''lost'', e_originalId = Some ''e2'', e_modelName = ''default'' \<rparr> ]"
  by (simp add: ex_defs convert_defs)

text \<open>
  C4, amended: every edge of every sub-model is in the edge list \<open>convertModelsToG6Data\<close>
  produces, also an edge whose \<open>sourceVertexId\<close> or \<open>targetVertexId\<close> matches no vertex
  of the sub-model; such an endpoint is the declared identifier itself. The function
  is total on these payloads: nothing is thrown.
\<close>

theorem unresolved_edge_is_kept:
  assumes "m \<in> set ms" and "am \<in> set (actualModels_of m)"
    and "model_edges am = Some es" and "e \<in> set es"
  shows "edge_of (modelName_of m) am e \<in> set (edges (convertModelsToG6Data ms))
       \<and> (find_vertex am (sourceVertexId e) = None \<longrightarrow>
            e_source (edge_of (modelName_of m) am e) = sourceVertexId e)
       \<and> (find_vertex am (targetVertexId e) = None \<longrightarrow>
            e_target (edge_of (modelName_of m) am e) = targetVertexId e)"
proof -
  have "edge_of (modelName_of m) am e \<in> set (edges (convertModelsToG6Data ms))"
    unfolding convertModelsToG6Data_def edges_foldl_push_model
    using assms by force
  moreover have "find_vertex am (sourceVertexId e) = None \<longrightarrow>
            e_source (edge_of (modelName_of m) am e) = sourceVertexId e"
    by (simp add: edge_of_def Let_def endpoint_unmatched)
  moreover have "find_vertex am (targetVertexId e) = None \<longrightarrow>
            e_target (edge_of (modelName_of m) am e) = targetVertexId e"
    by (simp add: edge_of_def Let_def endpoint_unmatched)
  ultimately show ?thesis by blast
qed

theorem unresolved_edge_is_kept_witness:
  "ex_model_dangling \<in> set [ex_model_dangling]
   \<and> ex_model_dangling \<in> set (actualModels_of ex_model_dangling)
   \<and> model_edges ex_model_dangling = Some [ex_edge_go, ex_edge_dangling]
   \<and> ex_edge_dangling \<in> set [ex_edge_go, ex_edge_dangling]
   \<and> find_vertex ex_model_dangling (targetVertexId ex_edge_dangling) = None
   \<and> edge_of ''default'' ex_model_dangling ex_edge_dangling
        \<in> set (edges (convertModelsToG6Data [ex_model_dangling]))
   \<and> e_target (edge_of ''default'' ex_model_dangling ex_edge_dangling) = Some ''v9''"
  using unresolved_edge_is_kept [of ex_model_dangling "[ex_model_dangling]" ex_model_dangling
      "[ex_edge_go, ex_edge_dangling]" ex_edge_dangling]
  by (simp add: ex_defs actualModels_of_def modelName_of_def find_vertex_def)

text \<open>
  C5, as stated: for every sub-model \<open>m\<close>, \<open>[m]\<close> and \<open>[{models: [m]}]\<close> normalize to the
  same output, \<open>modelName\<close> included. It fails for a sub-model with a name: flat, its
  nodes carry the name \<open>Login\<close>; wrapped, they carry \<open>default\<close>.
\<close>

theorem wrapping_counterexample:
  "convertModelsToG6Data [ex_model_named]
     \<noteq> convertModelsToG6Data [Model None (Some [ex_model_named]) None None]"
  by (simp add: ex_defs convert_defs)

text \<open>
  C5, amended: for every sub-model \<open>m\<close> with no \<open>models\<close> collection of its own,
  \<open>[m]\<close> normalizes to exactly the output of the wrapper that carries \<open>m\<close>'s name,
  \<open>[{name: m.name, models: [m]}]\<close>; when \<open>m\<close> has no name (or an empty one) this is the
  output of \<open>[{models: [m]}]\<close>.
\<close>

theorem wrapping_invariance:
  assumes "model_models m = None"
  shows "convertModelsToG6Data [m]
           = convertModelsToG6Data [Model (model_name m) (Some [m]) None None]
       \<and> (\<not> truthy (model_name m) \<longrightarrow>
            convertModelsToG6Data [m] = convertModelsToG6Data [Model None (Some [m]) None None])"
  using assms
  by (auto simp: convertModelsToG6Data_def push_model_def modelName_of_def actualModels_of_def
      truthy_def split: option.splits)

theorem wrapping_invariance_witness:
  "model_models ex_model = None \<and> \<not> truthy (model_name ex_model)
   \<and> convertModelsToG6Data [ex_model]
       = convertModelsToG6Data [Model None (Some [ex_model]) None None]"
  using wrapping_invariance [of ex_model]
  by (simp add: ex_model_def truthy_def)

section \<open>Lookup and style updates\<close>

lemma update_first_no_match: "find p xs = None \<Longrightarrow> update_first p f xs = xs"
  by (induction xs) (auto split: if_splits)

lemma map_item_id_update_first:
  "map item_id (update_first p (\<lambda>it. it\<lparr>it_style := f (it_style it)\<rparr>) its) = map item_id its"
  by (induction its) (simp_all add: item_id_def)

lemma item_ids_updateItem: "map item_id (items (updateItem g x f)) = map item_id (items g)"
  by (simp add: updateItem_def map_item_id_update_first)

lemma find_update_first_restyle:
  "find (\<lambda>it. item_id it = Some i)
     (update_first (\<lambda>it. item_id it = Some x) (\<lambda>it. it\<lparr>it_style := f (it_style it)\<rparr>) its)
   = map_option (\<lambda>it. if x = i then it\<lparr>it_style := f (it_style it)\<rparr> else it)
       (find (\<lambda>it. item_id it = Some i) its)"
  by (induction its) (auto simp: item_id_def option.map_ident)

lemma own_item_updateItem:
  "own_item (updateItem g x f) i =
     map_option (\<lambda>it. if x = i then it\<lparr>it_style := f (it_style it)\<rparr> else it) (own_item g i)"
  by (simp add: own_item_def updateItem_def find_update_first_restyle)

lemma own_item_updateItem_None: "own_item (updateItem g x f) i = None \<longleftrightarrow> own_item g i = None"
  by (simp add: own_item_updateItem)

lemma getType_restyle: "getType (it\<lparr>it_style := st\<rparr>) = getType it"
  by (simp add: getType_def)

lemma findById_updateItem:
  "findById (updateItem g x f) i =
     (case findById g i of
        ItemFound it \<Rightarrow> ItemFound (if x = i then it\<lparr>it_style := f (it_style it)\<rparr> else it)
      | Undefined \<Rightarrow> Undefined
      | InheritedMember \<Rightarrow> InheritedMember)"
  by (cases "own_item g i") (simp_all add: findById_def own_item_updateItem)

lemma findById_updateItem_Undefined:
  "findById (updateItem g x f) i = Undefined \<longleftrightarrow> findById g i = Undefined"
  and findById_updateItem_Inherited:
  "findById (updateItem g x f) i = InheritedMember \<longleftrightarrow> findById g i = InheritedMember"
  by (simp_all add: findById_updateItem split: looked_up.splits)

lemma findById_cases:
  "findById g i = Undefined \<longleftrightarrow> own_item g i = None \<and> \<not> inherited i"
  "findById g i = InheritedMember \<longleftrightarrow> own_item g i = None \<and> inherited i"
  "findById g i = ItemFound it \<longleftrightarrow> own_item g i = Some it"
  by (auto simp: findById_def split: option.splits)

lemma updateItem_not_found: "own_item g x = None \<Longrightarrow> updateItem g x f = g"
  by (simp add: own_item_def updateItem_def update_first_no_match)

lemma visitCount_graph_update: "visitCount (s\<lparr>graph := g\<rparr>) i = visitCount s i"
  by (simp add: visitCount_def)

lemma state_of_simps: "state_of (Inr s) = s" "state_of (Inl (e, s)) = s"
  by (simp_all add: state_of_def)

lemma returned_simps: "returned (Inr s)" "\<not> returned (Inl e)"
  by (simp_all add: returned_def)

text \<open>
  With a graph present, each method throws for an inherited member and is otherwise one
  \<open>updateItem\<close>; when there is no item the graph is as before.
\<close>

lemma highlightElement_graph:
  "highlightElement x b s =
       (if findById g x = InheritedMember then Inl (TypeError, s)
        else Inr (s\<lparr>graph := Some (updateItem g x (highlight_style b))\<rparr>))"
  if "graph s = Some g"
proof (cases "findById g x")
  case Undefined
  then have "updateItem g x (highlight_style b) = g"
    by (simp add: findById_cases updateItem_not_found)
  with Undefined show ?thesis by (simp add: highlightElement_def that)
qed (simp_all add: highlightElement_def that)

lemma updateElementColor_graph:
  "graph s = Some g \<Longrightarrow>
     updateElementColor x s =
       (case findById g x of
          Undefined \<Rightarrow> Inr s
        | InheritedMember \<Rightarrow> Inl (TypeError, s)
        | ItemFound it \<Rightarrow>
            Inr (s\<lparr>graph := Some (updateItem g x
                   (color_style (getType it) (colorScale (visitCount s x))))\<rparr>))"
  by (simp add: updateElementColor_def Let_def)

lemma markElementAsFailed_graph:
  "graph s = Some g \<Longrightarrow>
     markElementAsFailed x s =
       (case findById g x of
          Undefined \<Rightarrow> Inr (s\<lparr>failedStepId := Some x\<rparr>)
        | InheritedMember \<Rightarrow> Inl (TypeError, s\<lparr>failedStepId := Some x\<rparr>)
        | ItemFound it \<Rightarrow>
            Inr (s\<lparr>failedStepId := Some x,
                   graph := Some (updateItem g x (failed_style (getType it)))\<rparr>))"
  by (simp add: markElementAsFailed_def Let_def split: looked_up.splits)

lemma unhighlight_previous_graph:
  "graph s = Some g \<Longrightarrow>
     unhighlight_previous s =
       (case currentStepId s of
          None \<Rightarrow> Inr s
        | Some c \<Rightarrow>
            if c = [] then Inr s
            else if findById g c = InheritedMember then Inl (TypeError, s)
            else Inr (s\<lparr>graph := Some (updateItem g c (highlight_style False))\<rparr>))"
  by (simp add: unhighlight_previous_def highlightElement_graph split: option.splits)

lemma resolves_passes_guards: "resolves s i \<Longrightarrow> passes_guards s i"
  by (auto simp: resolves_def passes_guards_def findById_cases split: option.splits)

lemma updateStep_unresolved: "\<not> passes_guards s i \<Longrightarrow> updateStep i s = Inr s"
  by (auto simp: passes_guards_def updateStep_def split: option.splits looked_up.splits)

lemma updateStep_passed:
  "passes_guards s i \<Longrightarrow>
     updateStep i s =
       (case unhighlight_previous s of
          Inl e \<Rightarrow> Inl e
        | Inr s1 \<Rightarrow>
            (case updateElementColor i ((count_visit i s1)\<lparr>currentStepId := Some i\<rparr>) of
               Inl e \<Rightarrow> Inl e
             | Inr s4 \<Rightarrow> highlightElement i True s4))"
  by (auto simp: passes_guards_def updateStep_def Let_def
      split: option.splits looked_up.splits sum.splits)

lemma updateStep_is_last_phase:
  "state_of (updateStep i s) = last (s # updateStep_phases i s)"
proof (cases "passes_guards s i")
  case False
  then show ?thesis by (simp add: updateStep_unresolved updateStep_phases_def state_of_simps)
next
  case True
  then show ?thesis
    by (simp add: updateStep_passed updateStep_phases_def Let_def state_of_def
        split: sum.splits prod.splits)
qed

section \<open>Rendering\<close>

text \<open>
  Whatever the graph accepts of the data, and whether \<open>render\<close> returns or throws, every
  item it leaves is a fresh one.
\<close>

lemma add_nodes_fresh:
  "set (foldl add_node its ns) \<subseteq> set its \<union> node_item ` set ns"
proof (induction ns arbitrary: its)
  case Nil
  show ?case by simp
next
  case (Cons n ns)
  have "set (add_node its n) \<subseteq> insert (node_item n) (set its)"
    by (auto simp: add_node_def)
  with Cons.IH[of "add_node its n"] show ?case by auto
qed

lemma add_edges_fresh:
  "set (state_of (add_edges its es)) \<subseteq> set its \<union> edge_item ` set es"
proof (induction es arbitrary: its)
  case Nil
  show ?case by (simp add: state_of_def)
next
  case (Cons e es)
  have "set (state_of (add_edges its es)) \<subseteq> set its \<union> edge_item ` set (e # es)"
    using Cons.IH[of its] by auto
  moreover have "set (state_of (add_edges (its @ [edge_item e]) es))
      \<subseteq> set its \<union> edge_item ` set (e # es)"
    using Cons.IH[of "its @ [edge_item e]"] by auto
  moreover have "set (state_of (Inl (TypeError, its) :: item list result))
      \<subseteq> set its \<union> edge_item ` set (e # es)"
    by (auto simp: state_of_def)
  ultimately show ?case by (simp only: add_edges.simps split: if_splits) simp
qed

lemma rendered_items_fresh:
  "set (items (g6_render d)) \<subseteq> node_item ` set (nodes d) \<union> edge_item ` set (edges d)"
  using add_edges_fresh[of "foldl add_node [] (nodes d)" "edges d"] add_nodes_fresh[of "[]" "nodes d"]
  by (auto simp: g6_render_def render_items_def)

lemma fresh_items_not_highlighted: "filter isHighlighted (items (g6_render d)) = []"
  using rendered_items_fresh[of d]
  by (auto simp: isHighlighted_def node_item_def edge_item_def filter_empty_conv)

lemma getType_fresh: "getType (node_item n) = Node" "getType (edge_item e) = Edge"
  by (simp_all add: getType_def node_item_def edge_item_def)

text \<open>
The state \<open>setModels\<close> leaves, whether \<open>render\<close> returned or threw.
\<close>

lemma setModels_state:
  "state_of (setModels ms s) =
     (if graph s = None \<or> ms = []
      then s\<lparr>models := ms, visitCounts := Map.empty, currentStepId := None, failedStepId := None\<rparr>
      else s\<lparr>models := ms, visitCounts := Map.empty, currentStepId := None, failedStepId := None,
             graph := Some (g6_render (convertModelsToG6Data ms))\<rparr>)"
  by (auto simp: setModels_def renderGraph_def state_of_def Let_def split: option.splits)

section \<open>Visits\<close>

lemma unhighlight_previous_returned:
  assumes "graph s = Some g" and "returned (unhighlight_previous s)"
  shows "\<exists>g1. unhighlight_previous s = Inr (s\<lparr>graph := Some g1\<rparr>)
            \<and> (\<forall>e. own_item g1 e = None \<longleftrightarrow> own_item g e = None)"
proof -
  have same: "s\<lparr>graph := Some g\<rparr> = s" using assms(1) by (cases s) simp
  show ?thesis
  proof (cases "unhighlight_previous s = Inr s")
    case True
    with same show ?thesis by (intro exI[of _ g]) simp
  next
    case False
    with assms(2) have "unhighlight_previous s =
        Inr (s\<lparr>graph := Some (updateItem g (the (currentStepId s)) (highlight_style False))\<rparr>)"
      by (auto simp: unhighlight_previous_graph[OF assms(1)] returned_simps
          split: option.splits if_splits)
    then show ?thesis
      by (intro exI[of _ "updateItem g (the (currentStepId s)) (highlight_style False)"])
        (simp add: own_item_updateItem_None)
  qed
qed

text \<open>
  A visit of an element of the graph, made when un-highlighting the previous step does
  not throw, returns with the visit counted and the element the current step.
\<close>

lemma updateStep_resolved:
  assumes "resolves s i" and "returned (unhighlight_previous s)"
  shows "\<exists>s'. updateStep i s = Inr s'
           \<and> visitCounts s' = visitCounts (count_visit i s)
           \<and> currentStepId s' = Some i \<and> failedStepId s' = failedStepId s
           \<and> (\<forall>e. resolves s' e = resolves s e)"
proof -
  from assms(1) obtain g it where g: "graph s = Some g" "i \<noteq> []" "own_item g i = Some it"
    by (auto simp: resolves_def split: option.splits)
  from unhighlight_previous_returned[OF g(1) assms(2)] obtain g1 where
    u: "unhighlight_previous s = Inr (s\<lparr>graph := Some g1\<rparr>)"
    and o: "\<forall>e. own_item g1 e = None \<longleftrightarrow> own_item g e = None"
    by blast
  from o g(3) obtain it1 where it1: "own_item g1 i = Some it1" by (cases "own_item g1 i") auto
  define s3 where "s3 = (count_visit i (s\<lparr>graph := Some g1\<rparr>))\<lparr>currentStepId := Some i\<rparr>"
  have g3: "graph s3 = Some g1" by (simp add: s3_def count_visit_def)
  define f where "f = color_style (getType it1) (colorScale (visitCount s3 i))"
  have c: "updateElementColor i s3 = Inr (s3\<lparr>graph := Some (updateItem g1 i f)\<rparr>)"
    using it1 by (simp add: updateElementColor_graph[OF g3] findById_def f_def)
  have h: "highlightElement i True (s3\<lparr>graph := Some (updateItem g1 i f)\<rparr>) =
       Inr (s3\<lparr>graph := Some (updateItem (updateItem g1 i f) i (highlight_style True))\<rparr>)"
    using it1
    by (simp add: highlightElement_graph[of _ "updateItem g1 i f"] findById_cases
        own_item_updateItem)
  have "updateStep i s =
       Inr (s3\<lparr>graph := Some (updateItem (updateItem g1 i f) i (highlight_style True))\<rparr>)"
    using u c h by (simp add: updateStep_passed[OF resolves_passes_guards[OF assms(1)]] s3_def)
  moreover have "visitCounts s3 = visitCounts (count_visit i s)"
    "currentStepId s3 = Some i" "failedStepId s3 = failedStepId s"
    by (simp_all add: s3_def count_visit_def visitCount_def)
  moreover have "resolves (s3\<lparr>graph := Some (updateItem (updateItem g1 i f) i (highlight_style True))\<rparr>) e
       = resolves s e" for e
    using o g(1) by (simp add: resolves_def own_item_updateItem_None)
  ultimately show ?thesis by simp
qed

lemma returned_unhighlight_previous:
  "currentStepId s = None \<Longrightarrow> returned (unhighlight_previous s)"
  "currentStepId s = Some c \<Longrightarrow> resolves s c \<Longrightarrow> returned (unhighlight_previous s)"
  by (auto simp: unhighlight_previous_def returned_simps resolves_def highlightElement_def
      findById_def split: option.splits)

text \<open>
  Away from the inherited names the counts are right: when neither the current step nor
  any visited identifier names an inherited member, every visit leaves a state of the
  same kind and adds one to the count of an element that resolves, and no other count
  changes; so after \<open>setModels\<close> or \<open>clear\<close> the count of such an element is the number
  of its visits.
\<close>

lemma plain_visit:
  assumes "plain_counts s" and "\<not> inherited i"
  shows "plain_counts (state_of (updateStep i s))
       \<and> (\<forall>e. resolves (state_of (updateStep i s)) e = resolves s e)
       \<and> (\<forall>e. \<not> inherited e \<longrightarrow>
            visitCount (state_of (updateStep i s)) e =
              (if e = i \<and> resolves s i then plus_one (visitCount s e) else visitCount s e))"
proof (cases "resolves s i")
  case False
  with assms(2) have "\<not> passes_guards s i"
    by (auto simp: resolves_def passes_guards_def findById_cases split: option.splits)
  with assms(1) False show ?thesis by (simp add: updateStep_unresolved state_of_simps)
next
  case True
  then obtain g where g: "graph s = Some g" by (auto simp: resolves_def split: option.splits)
  have "returned (unhighlight_previous s)"
    using assms(1)
    by (auto simp: plain_counts_def unhighlight_previous_graph[OF g] returned_simps findById_cases
        split: option.splits)
  from updateStep_resolved[OF True this] obtain s' where
    s': "updateStep i s = Inr s'" "visitCounts s' = visitCounts (count_visit i s)"
    "currentStepId s' = Some i" "\<forall>e. resolves s' e = resolves s e" by blast
  have p: "i \<noteq> ''__proto__''" using assms(2) by (auto simp: inherited_def)
  have v: "visitCount s' e = (if e = i then plus_one (visitCount s e) else visitCount s e)" for e
    using p by (simp add: visitCount_def s'(2) count_visit_def)
  have "plain_counts s'"
    unfolding plain_counts_def
  proof (intro conjI allI impI)
    show "case currentStepId s' of None \<Rightarrow> True | Some c \<Rightarrow> \<not> inherited c"
      using assms(2) by (simp add: s'(3))
    fix e assume "\<not> inherited e"
    with assms(1) obtain n where "visitCount s e = Number n" by (auto simp: plain_counts_def)
    then show "\<exists>n. visitCount s' e = Number n" by (auto simp: v)
  qed
  with s' v True show ?thesis by (simp add: state_of_simps)
qed

lemma plain_visits:
  assumes "plain_counts s" and "list_all (\<lambda>i. \<not> inherited i) ids"
    and "\<not> inherited e" and "visitCount s e = Number n"
  shows "visitCount (updateSteps ids s) e =
           Number (n + (if resolves s e then count_list ids e else 0))"
  using assms
proof (induction ids arbitrary: s n)
  case Nil
  then show ?case by simp
next
  case (Cons i ids)
  from Cons.prems(2) have i: "\<not> inherited i" and rest: "list_all (\<lambda>i. \<not> inherited i) ids"
    by simp_all
  note step = plain_visit[OF Cons.prems(1) i]
  define s1 where "s1 = state_of (updateStep i s)"
  from step have p1: "plain_counts s1" and r1: "resolves s1 e = resolves s e"
    and v1: "visitCount s1 e = (if e = i \<and> resolves s i then plus_one (visitCount s e) else visitCount s e)"
    using Cons.prems(3) by (simp_all add: s1_def)
  have "visitCount s1 e = Number (n + (if e = i \<and> resolves s e then 1 else 0))"
    using Cons.prems(4) by (auto simp: v1)
  from Cons.IH[OF p1 rest Cons.prems(3) this] show ?case
    by (auto simp: s1_def[symmetric] r1)
qed

lemma visit_counts_of_plain_ids:
  assumes "s0 = state_of (setModels ms s) \<or> s0 = clear s" and "list_all (\<lambda>i. \<not> inherited i) ids"
    and "\<not> inherited e"
  shows "visitCount (updateSteps ids s0) e =
           Number (if resolves s0 e then count_list ids e else 0)"
proof -
  have f: "visitCounts s0 = Map.empty" "currentStepId s0 = None"
    using assms(1)
    by (auto simp: setModels_state clear_def Let_def split: option.splits)
  then have "plain_counts s0" by (simp add: plain_counts_def visitCount_def)
  moreover have "visitCount s0 e = Number 0" using assms(3) by (simp add: visitCount_def f)
  ultimately show ?thesis using plain_visits[OF _ assms(2,3)] by fastforce
qed

section \<open>The current highlight\<close>

lemma only_first_highlighted_filter:
  "only_first_highlighted c its \<Longrightarrow>
     length (filter isHighlighted its) \<le> 1
     \<and> list_all (\<lambda>it. item_id it = Some c) (filter isHighlighted its)"
  by (induction its) (auto split: if_splits)

lemma only_first_highlighted_no_item:
  "only_first_highlighted c its \<Longrightarrow> find (\<lambda>it. item_id it = Some c) its = None \<Longrightarrow>
     filter isHighlighted its = []"
  by (induction its) (auto split: if_splits)

lemma unhighlight_first_clears:
  "only_first_highlighted c its \<Longrightarrow>
     filter isHighlighted (update_first (\<lambda>it. item_id it = Some c)
        (\<lambda>it. it\<lparr>it_style := highlight_style False (it_style it)\<rparr>) its) = []"
  by (induction its) (auto simp: isHighlighted_def highlight_style_def split: if_splits)

lemma none_highlighted_only_first:
  "filter isHighlighted its = [] \<Longrightarrow> only_first_highlighted c its"
  by (induction its) (auto split: if_splits)

lemma highlight_first_only:
  "filter isHighlighted its = [] \<Longrightarrow>
     only_first_highlighted c (update_first (\<lambda>it. item_id it = Some c)
        (\<lambda>it. it\<lparr>it_style := f (it_style it)\<rparr>) its)"
  by (induction its) (auto simp: item_id_def split: if_splits)

lemma highlight_first_exact:
  "filter isHighlighted its = [] \<Longrightarrow> find (\<lambda>it. item_id it = Some c) its \<noteq> None \<Longrightarrow>
     map item_id (filter isHighlighted (update_first (\<lambda>it. item_id it = Some c)
        (\<lambda>it. it\<lparr>it_style := highlight_style True (it_style it)\<rparr>) its)) = [Some c]"
  by (induction its) (auto simp: item_id_def isHighlighted_def highlight_style_def split: if_splits)

lemma restyle_keeps_highlights:
  assumes "\<And>st. st_lineWidth (f st) = st_lineWidth st"
  shows "filter isHighlighted (update_first p (\<lambda>it. it\<lparr>it_style := f (it_style it)\<rparr>) its) = []
           \<longleftrightarrow> filter isHighlighted its = []"
    and "only_first_highlighted c (update_first p (\<lambda>it. it\<lparr>it_style := f (it_style it)\<rparr>) its)
           \<longleftrightarrow> only_first_highlighted c its"
  using assms by (induction its) (auto simp: isHighlighted_def item_id_def split: if_splits)

lemma color_style_lineWidth: "st_lineWidth (color_style t c st) = st_lineWidth st"
  by (cases t) (simp_all add: color_style_def)

lemma failed_style_lineWidth: "st_lineWidth (failed_style t st) = st_lineWidth st"
  by (cases t) (simp_all add: failed_style_def)

lemma highlighted_graph: "graph s = Some g \<Longrightarrow> highlighted s = filter isHighlighted (items g)"
  by (simp add: highlighted_def)

lemma highlight_inv_graph: "highlight_inv s \<Longrightarrow> \<exists>g. graph s = Some g"
  by (auto simp: highlight_inv_def split: option.splits)

lemma highlight_inv_none_highlighted:
  "graph s = Some g \<Longrightarrow> filter isHighlighted (items g) = [] \<Longrightarrow> currentStepId s \<noteq> Some [] \<Longrightarrow>
     highlight_inv s"
  by (auto simp: highlight_inv_def none_highlighted_only_first split: option.splits)

lemma highlight_inv_highlighted:
  assumes "highlight_inv s"
  shows "length (highlighted s) \<le> 1
       \<and> list_all (\<lambda>it. item_id it = currentStepId s) (highlighted s)"
proof -
  from assms obtain g where g: "graph s = Some g" by (auto dest: highlight_inv_graph)
  show ?thesis
  proof (cases "currentStepId s")
    case None
    with assms g show ?thesis by (simp add: highlight_inv_def highlighted_def)
  next
    case (Some c)
    with assms g have "only_first_highlighted c (items g)" by (simp add: highlight_inv_def)
    from only_first_highlighted_filter[OF this] g Some show ?thesis
      by (simp add: highlighted_def)
  qed
qed

text \<open>
  After the first statement of a visit nothing is highlighted, whether it returned or
  threw; the items keep their identifiers.
\<close>

lemma unhighlight_previous_state:
  assumes "highlight_inv s" and "graph s = Some g"
  shows "\<exists>g1. state_of (unhighlight_previous s) = s\<lparr>graph := Some g1\<rparr>
            \<and> filter isHighlighted (items g1) = []
            \<and> (\<forall>i. findById g1 i = Undefined \<longleftrightarrow> findById g i = Undefined)
            \<and> (\<forall>i. findById g1 i = InheritedMember \<longleftrightarrow> findById g i = InheritedMember)"
proof (cases "currentStepId s")
  case None
  with assms have "filter isHighlighted (items g) = []" by (simp add: highlight_inv_def)
  moreover have "state_of (unhighlight_previous s) = s\<lparr>graph := Some g\<rparr>"
    using None assms(2) by (simp add: unhighlight_previous_def state_of_simps)
  ultimately show ?thesis by blast
next
  case (Some c)
  with assms have c: "c \<noteq> []" "only_first_highlighted c (items g)"
    by (simp_all add: highlight_inv_def)
  show ?thesis
  proof (cases "findById g c = InheritedMember")
    case True
    then have "find (\<lambda>it. item_id it = Some c) (items g) = None"
      by (simp add: findById_cases own_item_def)
    with c(2) have "filter isHighlighted (items g) = []"
      by (rule only_first_highlighted_no_item)
    moreover have "state_of (unhighlight_previous s) = s\<lparr>graph := Some g\<rparr>"
      using Some c(1) True assms(2)
      by (simp add: unhighlight_previous_graph[OF assms(2)] state_of_simps)
    ultimately show ?thesis by blast
  next
    case False
    have "state_of (unhighlight_previous s)
            = s\<lparr>graph := Some (updateItem g c (highlight_style False))\<rparr>"
      using Some c(1) False by (simp add: unhighlight_previous_graph[OF assms(2)] state_of_simps)
    moreover have "filter isHighlighted (items (updateItem g c (highlight_style False))) = []"
      using c(2) by (simp add: updateItem_def unhighlight_first_clears)
    ultimately show ?thesis
      by (auto simp: findById_updateItem_Undefined findById_updateItem_Inherited)
  qed
qed

text \<open>
  The states of a visit that passes the guards: each has at most one highlighted item;
  when the visit returns, none has any but the last, which has the visited item; when
  it throws, none has any.
\<close>

lemma phases_of_visit:
  assumes "highlight_inv s" and "passes_guards s i"
  shows "list_all (\<lambda>s'. length (highlighted s') \<le> 1) (updateStep_phases i s)
       \<and> highlight_inv (last (s # updateStep_phases i s))
       \<and> (if returned (updateStep i s)
            then length (updateStep_phases i s) = 5
               \<and> list_all (\<lambda>s'. highlighted s' = []) (butlast (updateStep_phases i s))
               \<and> map item_id (highlighted (last (updateStep_phases i s))) = [Some i]
            else list_all (\<lambda>s'. highlighted s' = []) (updateStep_phases i s))"
proof -
  from assms obtain g where g: "graph s = Some g" "i \<noteq> []" "findById g i \<noteq> Undefined"
    by (auto simp: passes_guards_def split: option.splits)
  from unhighlight_previous_state[OF assms(1) g(1)] obtain g1 where
    s1: "state_of (unhighlight_previous s) = s\<lparr>graph := Some g1\<rparr>"
    and n1: "filter isHighlighted (items g1) = []"
    and u1: "findById g1 i \<noteq> Undefined"
    and m1: "findById g1 i = InheritedMember \<longleftrightarrow> findById g i = InheritedMember"
    using g(3) by auto
  define t1 where "t1 = s\<lparr>graph := Some g1\<rparr>"
  have h1: "highlighted t1 = []" using n1 by (simp add: t1_def highlighted_def)
  show ?thesis
  proof (cases "unhighlight_previous s")
    case (Inl p)
    then obtain e where p: "unhighlight_previous s = Inl (e, t1)"
      using s1 by (cases p) (simp add: state_of_def t1_def)
    have ph: "updateStep_phases i s = [t1]"
      using assms(2) p by (simp add: updateStep_phases_def)
    have "t1 = s"
      using p g(1) by (auto simp: unhighlight_previous_graph[OF g(1)] split: option.splits if_splits)
    with assms(1) h1 p show ?thesis
      by (simp add: ph updateStep_passed[OF assms(2)] returned_simps)
  next
    case (Inr r)
    then have r: "unhighlight_previous s = Inr t1"
      using s1 by (simp add: state_of_def t1_def)
    define t2 where "t2 = count_visit i t1"
    define t3 where "t3 = t2\<lparr>currentStepId := Some i\<rparr>"
    have g3: "graph t3 = Some g1" "graph t2 = Some g1"
      by (simp_all add: t3_def t2_def t1_def count_visit_def)
    have h2: "highlighted t2 = []" and h3: "highlighted t3 = []"
      using n1 g3 by (simp_all add: highlighted_def)
    have i3: "highlight_inv t3"
      by (rule highlight_inv_none_highlighted[OF g3(1) n1]) (simp add: t3_def g(2))
    show ?thesis
    proof (cases "findById g1 i")
      case Undefined
      with u1 show ?thesis by simp
    next
      case InheritedMember
      then have c: "updateElementColor i t3 = Inl (TypeError, t3)"
        by (simp add: updateElementColor_graph[OF g3(1)])
      have ph: "updateStep_phases i s = [t1, t2, t3, t3]"
        using assms(2) r c by (simp add: updateStep_phases_def Let_def t2_def t3_def)
      have "\<not> returned (updateStep i s)"
        using r c by (simp add: updateStep_passed[OF assms(2)] t2_def t3_def returned_simps)
      with h1 h2 h3 i3 show ?thesis by (simp add: ph)
    next
      case (ItemFound it)
      define f where "f = color_style (getType it) (colorScale (visitCount t3 i))"
      define t4 where "t4 = t3\<lparr>graph := Some (updateItem g1 i f)\<rparr>"
      define t5 where "t5 = t4\<lparr>graph := Some (updateItem (updateItem g1 i f) i (highlight_style True))\<rparr>"
      have c: "updateElementColor i t3 = Inr t4"
        using ItemFound by (simp add: updateElementColor_graph[OF g3(1)] t4_def f_def)
      have g4: "graph t4 = Some (updateItem g1 i f)" by (simp add: t4_def)
      have f4: "findById (updateItem g1 i f) i \<noteq> InheritedMember"
        using ItemFound by (simp add: findById_updateItem)
      have hl: "highlightElement i True t4 = Inr t5"
        using f4 by (simp add: highlightElement_graph[OF g4] t5_def)
      have ph: "updateStep_phases i s = [t1, t2, t3, t4, t5]"
        using assms(2) r c hl
        by (simp add: updateStep_phases_def Let_def t2_def t3_def state_of_simps)
      have ret: "returned (updateStep i s)"
        using r c hl by (simp add: updateStep_passed[OF assms(2)] t2_def t3_def returned_simps)
      have lw: "st_lineWidth (f st) = st_lineWidth st" for st
        by (simp add: f_def color_style_lineWidth)
      have n4: "filter isHighlighted (items (updateItem g1 i f)) = []"
        using n1 by (simp add: updateItem_def restyle_keeps_highlights(1)[OF lw])
      have h4: "highlighted t4 = []" using n4 by (simp add: highlighted_def t4_def)
      have found4: "find (\<lambda>it. item_id it = Some i) (items (updateItem g1 i f)) \<noteq> None"
        using ItemFound by (simp add: findById_cases own_item_updateItem own_item_def[symmetric])
      have h5: "map item_id (highlighted t5) = [Some i]"
        using highlight_first_exact[OF n4 found4]
        by (simp add: highlighted_def t5_def updateItem_def)
      have i5: "highlight_inv t5"
        using highlight_first_only[OF n4, of i "highlight_style True"] g(2)
        by (simp add: highlight_inv_def t5_def t4_def t3_def updateItem_def)
      from h5 have l5: "length (highlighted t5) \<le> 1"
        by (metis length_map list.size(3,4) One_nat_def Suc_eq_plus1 order_refl add_0)
      show ?thesis
        using h1 h2 h3 h4 h5 i5 l5 ret by (simp add: ph)
    qed
  qed
qed

lemma updateStep_keeps_highlight_inv:
  assumes "highlight_inv s"
  shows "highlight_inv (state_of (updateStep i s))"
proof (cases "passes_guards s i")
  case True
  from phases_of_visit[OF assms True] show ?thesis
    by (simp add: updateStep_is_last_phase)
next
  case False
  with assms show ?thesis by (simp add: updateStep_unresolved state_of_simps)
qed

lemma restyle_keeps_highlight_inv:
  assumes "highlight_inv s" and "graph s = Some g"
    and "\<And>st. st_lineWidth (f st) = st_lineWidth st"
    and "currentStepId s' = currentStepId s"
  shows "highlight_inv (s'\<lparr>graph := Some (updateItem g x f)\<rparr>)"
  using assms(1,2,4)
  by (simp add: highlight_inv_def updateItem_def restyle_keeps_highlights[OF assms(3)]
      split: option.splits)

lemma markElementAsFailed_keeps_highlight_inv:
  assumes "highlight_inv s"
  shows "highlight_inv (state_of (markElementAsFailed x s))"
proof -
  from assms obtain g where g: "graph s = Some g" by (auto dest: highlight_inv_graph)
  have frame: "highlight_inv (s\<lparr>failedStepId := Some x\<rparr>)"
    using assms by (simp add: highlight_inv_def split: option.splits)
  show ?thesis
  proof (cases "findById g x")
    case (ItemFound it)
    have "highlight_inv ((s\<lparr>failedStepId := Some x\<rparr>)\<lparr>graph :=
            Some (updateItem g x (failed_style (getType it)))\<rparr>)"
      by (rule restyle_keeps_highlight_inv[OF assms g]) (simp_all add: failed_style_lineWidth)
    with ItemFound show ?thesis
      by (simp add: markElementAsFailed_graph[OF g] state_of_simps)
  qed (use frame in \<open>simp_all add: markElementAsFailed_graph[OF g] state_of_simps\<close>)
qed

lemma setModels_establishes_highlight_inv:
  assumes "graph s \<noteq> None" and "ms \<noteq> []"
  shows "highlight_inv (state_of (setModels ms s))"
  using assms
  by (auto simp: setModels_state highlight_inv_def fresh_items_not_highlighted)

lemma initialize_highlight_inv: "highlight_inv (initialize GraphVisualizer_new)"
  by (simp add: initialize_def GraphVisualizer_new_def highlight_inv_def g6_empty_def)

lemma updateLayout_keeps_highlight_inv: "highlight_inv s \<Longrightarrow> highlight_inv (updateLayout d s)"
  by (simp add: updateLayout_def highlight_inv_def split: option.splits)

subsection \<open>What the handlers do to the visualizer and to the client\<close>

lemma log_line_frame:
  "gv (log_line l a) = gv a" "ui (log_line l a) = ui a" "isRunning (log_line l a) = isRunning a"
  "messageHandlers (ws (log_line l a)) = messageHandlers (ws a)"
  "console (ws (log_line l a)) = console (ws a) @ [l]"
  by (simp_all add: log_line_def)

lemma handler_for_log_line: "handler_for (ws (log_line l a)) t = handler_for (ws a) t"
  by (simp add: handler_for_def log_line_def split: option.splits)

lemma gv_with_gv: "gv (state_of (with_gv a r)) = state_of r"
  by (simp add: with_gv_def state_of_def split: sum.splits prod.splits)

lemma state_of_caught: "state_of (caught r) = state_of r"
  by (simp add: caught_def state_of_def split: sum.splits prod.splits)

lemma gv_handleStartMessage:
  "gv (state_of (handleStartMessage m a)) =
     (case msg_models m of None \<Rightarrow> gv a
      | Some ms \<Rightarrow> if ms \<noteq> [] then state_of (setModels ms (gv a)) else gv a)"
  by (simp add: handleStartMessage_def Let_def gv_with_gv state_of_caught state_of_simps
      split: option.splits)

lemma gv_handleStepStartMessage:
  "gv (state_of (handleStepStartMessage m a)) =
     (case msg_step m of None \<Rightarrow> gv a
      | Some st \<Rightarrow>
          if truthy (step_id st) then state_of (updateStep (the (step_id st)) (gv a))
          else if truthy (step_name st) then state_of (updateStep (the (step_name st)) (gv a))
          else gv a)"
  by (simp add: handleStepStartMessage_def Let_def gv_with_gv state_of_caught state_of_simps
      split: option.splits)

lemma gv_handleStepEndMessage:
  "gv (state_of (handleStepEndMessage m a)) =
     (case msg_result m of None \<Rightarrow> gv a
      | Some r \<Rightarrow>
          (case res_error r of None \<Rightarrow> gv a
           | Some err \<Rightarrow>
               if truthy (res_id r) then state_of (markElementAsFailed (the (res_id r)) (gv a))
               else gv a))"
  by (simp add: handleStepEndMessage_def Let_def gv_with_gv state_of_simps split: option.splits)

lemma gv_handleEndMessage: "gv (state_of (handleEndMessage m a)) = gv a"
  by (simp add: handleEndMessage_def Let_def state_of_simps)

lemma gv_handleErrorMessage:
  "gv (state_of (handleErrorMessage m a)) =
     (case msg_step m of None \<Rightarrow> gv a
      | Some st \<Rightarrow>
          if truthy (step_id st) then state_of (markElementAsFailed (the (step_id st)) (gv a))
          else gv a)"
  by (simp add: handleErrorMessage_def Let_def gv_with_gv state_of_simps split: option.splits)

lemma gv_call_handler: "gv_step (gv a) (gv (state_of (call_handler h m a)))"
proof (cases h)
  case HandleStart
  then show ?thesis
    by (auto simp: gv_step_def gv_handleStartMessage split: option.splits)
next
  case HandleStepStart
  then show ?thesis
    by (auto simp: gv_step_def gv_handleStepStartMessage split: option.splits)
next
  case HandleStepEnd
  then show ?thesis
    by (auto simp: gv_step_def gv_handleStepEndMessage split: option.splits)
next
  case HandleEnd
  then show ?thesis by (simp add: gv_step_def gv_handleEndMessage)
next
  case HandleError
  then show ?thesis
    by (auto simp: gv_step_def gv_handleErrorMessage split: option.splits)
qed

lemma state_of_call_member: "state_of (call_member k a) = a"
  by (simp add: call_member_def state_of_simps)

lemma gv_handleMessage:
  "gv (state_of (handleMessage m a)) =
     (case handler_for (ws a) (msg_type m) of
        MainFunction h \<Rightarrow> gv (state_of (call_handler h m a))
      | MemberFunction k \<Rightarrow> gv a
      | NoFunction \<Rightarrow> gv a)"
  by (simp add: handleMessage_def state_of_simps log_line_frame state_of_call_member
      split: handler_value.splits)

lemma onmessage_parsed:
  "parse d = Some (JsonObject m) \<Longrightarrow>
     gv (onmessage parse d a) = gv (state_of (handleMessage m (log_line (Received (msg_type m)) a)))"
  by (simp add: onmessage_def state_of_def log_line_frame split: sum.splits prod.splits)

lemma gv_onmessage: "gv_step (gv a) (gv (onmessage parse d a))"
proof (cases "parse d")
  case None
  then show ?thesis by (simp add: onmessage_def log_line_frame gv_step_def)
next
  case (Some p)
  show ?thesis
  proof (cases p)
    case JsonNull
    with Some show ?thesis by (simp add: onmessage_def log_line_frame gv_step_def)
  next
    case (JsonObject m)
    show ?thesis
    proof (cases "handler_for (ws (log_line (Received (msg_type m)) a)) (msg_type m)")
      case (MainFunction h)
      with \<open>parse d = Some p\<close> JsonObject
        gv_call_handler[of "log_line (Received (msg_type m)) a" h m]
      show ?thesis
        by (simp add: onmessage_parsed gv_handleMessage log_line_frame)
    qed (use Some JsonObject in
        \<open>simp_all add: onmessage_parsed gv_handleMessage log_line_frame gv_step_def\<close>)
  qed
qed

lemma ws_with_gv: "ws (state_of (with_gv a r)) = ws a"
  by (simp add: with_gv_def state_of_def split: sum.splits prod.splits)

lemma ws_call_handler: "ws (state_of (call_handler h m a)) = ws a"
  by (cases h)
    (simp_all add: handleStartMessage_def handleStepStartMessage_def handleStepEndMessage_def
      handleEndMessage_def handleErrorMessage_def Let_def state_of_simps ws_with_gv
      state_of_caught split: option.splits)

lemma ws_after_catch:
  "messageHandlers (ws (case r of Inl (e, a') \<Rightarrow> log_line (ErrorParsing e) a' | Inr a' \<Rightarrow> a'))
     = messageHandlers (ws (state_of r))"
  by (simp add: state_of_def log_line_frame split: sum.splits prod.splits)

lemma handlers_kept: "messageHandlers (ws (onmessage parse d a)) = messageHandlers (ws a)"
proof -
  have "messageHandlers (ws (state_of (handleMessage m b))) = messageHandlers (ws b)" for m b
    by (simp add: handleMessage_def state_of_simps ws_call_handler log_line_frame
        state_of_call_member split: handler_value.splits)
  then show ?thesis
    by (simp add: onmessage_def ws_after_catch log_line_frame split: option.splits parsed.splits)
qed

lemma handler_for_onmessage: "handler_for (ws (onmessage parse d a)) t = handler_for (ws a) t"
  by (simp add: handler_for_def handlers_kept split: option.splits)

lemma gv_onmessage_handled:
  "parse d = Some (JsonObject m) \<Longrightarrow> handler_for (ws a) (msg_type m) = MainFunction h \<Longrightarrow>
     gv (onmessage parse d a) = gv (state_of (call_handler h m (log_line (Received (msg_type m)) a)))"
  by (simp add: onmessage_parsed gv_handleMessage handler_for_log_line)

subsection \<open>The invariant in every reachable state\<close>

lemma gv_step_keeps_highlight_inv:
  assumes "gv_step s s'" and "highlight_inv s"
  shows "highlight_inv s'"
proof -
  from assms(2) have "graph s \<noteq> None"
    by (auto simp: highlight_inv_def split: option.splits)
  with assms show ?thesis
    by (auto simp: gv_step_def updateStep_keeps_highlight_inv
        markElementAsFailed_keeps_highlight_inv setModels_establishes_highlight_inv)
qed

lemma reachable_highlight_inv:
  assumes "reachable parse page a"
  shows "highlight_inv (gv a)"
  using assms
proof (induction rule: reachable.induct)
  case reachable_init
  show ?case
    by (simp add: init_def app_new_def setupWebSocketHandlers_def initialize_highlight_inv)
next
  case (reachable_message a d)
  from gv_onmessage this(2) show ?case by (rule gv_step_keeps_highlight_inv)
next
  case (reachable_settings a direction)
  then show ?case by (simp add: saveSettings_def updateLayout_keeps_highlight_inv)
qed

lemma reachable_graph: "reachable parse page a \<Longrightarrow> \<exists>g. graph (gv a) = Some g"
  by (drule reachable_highlight_inv) (auto simp: highlight_inv_def split: option.splits)

section \<open>The example graph and the example run\<close>

lemma ex_item_ids:
  "item_id (node_item (node_of mn ex_vertex_A)) = Some ''A''"
  "item_id (node_item (node_of mn ex_vertex_B)) = Some ''B''"
  "item_id (edge_item (edge_of mn am ex_edge_go)) = Some ''go''"
  by (simp_all add: item_id_def node_item_def edge_item_def node_of_def edge_of_def
      js_or_def truthy_def ex_vertex_A_def ex_vertex_B_def ex_edge_go_def Let_def)

lemma ex_data:
  "convertModelsToG6Data [ex_model] =
     \<lparr> nodes = [node_of ''default'' ex_vertex_A, node_of ''default'' ex_vertex_B],
       edges = [edge_of ''default'' ex_model ex_edge_go] \<rparr>"
  by (simp add: convertModelsToG6Data_def push_model_def push_submodel_def modelName_of_def
      actualModels_of_def ex_model_def)

lemma ex_node_fields:
  "n_id (node_of mn ex_vertex_A) = Some ''A''" "n_id (node_of mn ex_vertex_B) = Some ''B''"
  "e_id (edge_of mn ex_model ex_edge_go) = Some ''go''"
  "e_source (edge_of mn ex_model ex_edge_go) = Some ''A''"
  "e_target (edge_of mn ex_model ex_edge_go) = Some ''B''"
  by (simp_all add: node_of_def edge_of_def js_or_def truthy_def ex_vertex_A_def ex_vertex_B_def
      ex_edge_go_def ex_model_def find_vertex_def endpoint_of_def Let_def)

lemma ex_render:
  "render_items (convertModelsToG6Data [ex_model]) = Inr
     [ node_item (node_of ''default'' ex_vertex_A), node_item (node_of ''default'' ex_vertex_B),
       edge_item (edge_of ''default'' ex_model ex_edge_go) ]"
  by (simp add: ex_data render_items_def add_node_def id_taken_def end_of_def findById_def
      own_item_def ex_item_ids ex_node_fields inherited_def truthy_def getType_fresh)

lemma ex_visualizer_graph:
  "graph ex_visualizer = Some \<lparr> items =
     [ node_item (node_of ''default'' ex_vertex_A), node_item (node_of ''default'' ex_vertex_B),
       edge_item (edge_of ''default'' ex_model ex_edge_go) ] \<rparr>"
  by (simp add: ex_visualizer_def setModels_state initialize_def g6_render_def ex_render
      state_of_simps)

lemma ex_visualizer_fields:
  "visitCounts ex_visualizer = Map.empty" "currentStepId ex_visualizer = None"
  "failedStepId ex_visualizer = None"
  by (simp_all add: ex_visualizer_def setModels_state)

lemma ex_resolves:
  "resolves ex_visualizer ''A''" "resolves ex_visualizer ''go''"
  "\<not> resolves ex_visualizer ''ghost''" "resolves ex_visualizer ''B''"
  "\<not> resolves ex_visualizer ''constructor''"
  by (simp_all add: resolves_def ex_visualizer_graph own_item_def ex_item_ids)

lemma ex_findById:
  "findById \<lparr> items =
     [ node_item (node_of ''default'' ex_vertex_A), node_item (node_of ''default'' ex_vertex_B),
       edge_item (edge_of ''default'' ex_model ex_edge_go) ] \<rparr> ''ghost'' = Undefined"
  "findById \<lparr> items =
     [ node_item (node_of ''default'' ex_vertex_A), node_item (node_of ''default'' ex_vertex_B),
       edge_item (edge_of ''default'' ex_model ex_edge_go) ] \<rparr> ''constructor'' = InheritedMember"
  by (simp_all add: findById_def own_item_def ex_item_ids inherited_def)

text \<open>
The state of the example run after its one visit.
\<close>

lemma ex_after_visit:
  "\<exists>s'. updateStep ''A'' ex_visualizer = Inr s' \<and> visitCount s' ''A'' = Number 1
        \<and> currentStepId s' = Some ''A'' \<and> (\<forall>e. resolves s' e = resolves ex_visualizer e)"
proof -
  from updateStep_resolved[OF ex_resolves(1) returned_unhighlight_previous(1)[OF ex_visualizer_fields(2)]]
  obtain s' where s': "updateStep ''A'' ex_visualizer = Inr s'"
    "visitCounts s' = visitCounts (count_visit ''A'' ex_visualizer)"
    "currentStepId s' = Some ''A''" "\<forall>e. resolves s' e = resolves ex_visualizer e"
    by blast
  have "visitCount s' ''A'' = Number 1"
    by (simp add: visitCount_def s'(2) count_visit_def ex_visualizer_fields inherited_def)
  with s' show ?thesis by blast
qed

lemma ex_app_handlers:
  "handler_for (ws ex_app) (Some ''ping'') = NoFunction"
  "handler_for (ws ex_app) (Some ''toString'') = MemberFunction ''toString''"
  "handler_for (ws ex_app) (Some ''valueOf'') = MemberFunction ''valueOf''"
  "handler_for (ws ex_app) (Some ''start'') = MainFunction HandleStart"
  "handler_for (ws ex_app) (Some ''step-start'') = MainFunction HandleStepStart"
  "handler_for (ws ex_app) (Some ''end'') = MainFunction HandleEnd"
  by (simp_all add: ex_app_def init_def app_new_def setupWebSocketHandlers_def on_def
      WebSocketClient_new_def handler_for_def inherited_def)

lemma gv_ex_app: "gv ex_app = initialize GraphVisualizer_new"
  by (simp add: ex_app_def init_def app_new_def setupWebSocketHandlers_def)

lemma gv_ex_app_started: "gv (onmessage ex_parse ''start'' ex_app) = ex_visualizer"
  by (simp add: gv_onmessage_handled[where m=ex_start and h=HandleStart] ex_parse_def
      ex_app_handlers gv_handleStartMessage log_line_frame gv_ex_app ex_visualizer_def
      ex_start_def no_message_def)

lemma gv_ex_app_running: "gv ex_app_running = state_of (updateStep ''A'' ex_visualizer)"
proof -
  have 1: "gv (onmessage ex_parse ''start'' ex_app) = ex_visualizer"
    by (simp add: gv_onmessage_handled[where m=ex_start and h=HandleStart] ex_parse_def
        ex_app_handlers gv_handleStartMessage log_line_frame gv_ex_app ex_visualizer_def
        ex_start_def no_message_def)
  have "gv ex_app_running = gv (state_of (call_handler HandleStepStart ex_step_A
          (log_line (Received (msg_type ex_step_A)) (onmessage ex_parse ''start'' ex_app))))"
    unfolding ex_app_running_def
    by (rule gv_onmessage_handled)
      (simp_all add: ex_parse_def handler_for_onmessage ex_app_handlers ex_step_A_def no_message_def)
  then show ?thesis
    by (simp add: gv_handleStepStartMessage log_line_frame 1 ex_step_A_def no_message_def truthy_def)
qed

lemma gv_ex_app_ended: "gv ex_app_ended = state_of (updateStep ''A'' ex_visualizer)"
proof -
  have "gv ex_app_ended = gv (state_of (call_handler HandleEnd ex_end
          (log_line (Received (msg_type ex_end)) ex_app_running)))"
    unfolding ex_app_ended_def
    by (rule gv_onmessage_handled)
      (simp_all add: ex_parse_def ex_app_running_def handler_for_onmessage ex_app_handlers
        ex_end_def no_message_def)
  then show ?thesis
    by (simp add: gv_handleEndMessage log_line_frame gv_ex_app_running)
qed

lemma reachable_ex_app: "reachable ex_parse ex_page ex_app"
  unfolding ex_app_def by (rule reachable_init)

lemma reachable_ex_app_running: "reachable ex_parse ex_page ex_app_running"
  unfolding ex_app_running_def
  by (rule reachable_message, rule reachable_message, rule reachable_ex_app)

lemma reachable_ex_app_ended: "reachable ex_parse ex_page ex_app_ended"
  unfolding ex_app_ended_def
  by (rule reachable_message, rule reachable_ex_app_running)

text \<open>
  A step-start event for \<open>constructor\<close> and one for \<open>B\<close>, after the start event, are the
  two visits, each made in the state the previous one left.
\<close>

lemma gv_ex_step_constructor:
  assumes "messageHandlers (ws a) = messageHandlers (ws ex_app)"
  shows "gv (onmessage ex_parse ''step-constructor'' a) = state_of (updateStep ''constructor'' (gv a))"
proof -
  have h: "handler_for (ws a) (Some ''step-start'') = MainFunction HandleStepStart"
    using ex_app_handlers(5) assms by (simp add: handler_for_def)
  have "gv (onmessage ex_parse ''step-constructor'' a) =
          gv (state_of (call_handler HandleStepStart ex_step_constructor
            (log_line (Received (msg_type ex_step_constructor)) a)))"
    by (rule gv_onmessage_handled)
      (simp_all add: ex_parse_def h ex_step_constructor_def no_message_def)
  then show ?thesis
    by (simp add: gv_handleStepStartMessage log_line_frame ex_step_constructor_def no_message_def
        truthy_def)
qed

lemma gv_ex_step_B:
  assumes "messageHandlers (ws a) = messageHandlers (ws ex_app)"
  shows "gv (onmessage ex_parse ''step-B'' a) = state_of (updateStep ''B'' (gv a))"
proof -
  have h: "handler_for (ws a) (Some ''step-start'') = MainFunction HandleStepStart"
    using ex_app_handlers(5) assms by (simp add: handler_for_def)
  have "gv (onmessage ex_parse ''step-B'' a) =
          gv (state_of (call_handler HandleStepStart ex_step_B
            (log_line (Received (msg_type ex_step_B)) a)))"
    by (rule gv_onmessage_handled)
      (simp_all add: ex_parse_def h ex_step_B_def no_message_def)
  then show ?thesis
    by (simp add: gv_handleStepStartMessage log_line_frame ex_step_B_def no_message_def
        truthy_def)
qed

lemma ex_events_constructor_B:
  "gv (onmessage ex_parse ''step-B'' (onmessage ex_parse ''step-constructor''
        (onmessage ex_parse ''start'' ex_app)))
     = updateSteps [''constructor'', ''B''] ex_visualizer"
  by (simp add: gv_ex_step_B gv_ex_step_constructor handlers_kept gv_ex_app_started)

section \<open>Visit counts and unresolved identifiers\<close>

text \<open>
  C1 fails on the code for an identifier that names an inherited member of a plain
  object. On the example graph, freshly rendered and with no counts, \<open>constructor\<close>
  names no element, yet \<open>findById\<close> answers with the inherited member and the \<open>!item\<close>
  guard lets it pass: the visit stores the text that \<open>visitCounts[stepId] + 1\<close> makes of
  the inherited function as the count of \<open>constructor\<close>, sets \<open>currentStepId\<close>, and throws
  in \<open>updateElementColor\<close>. So an event whose identifier does not resolve changes the
  counts. From then on every visit throws while un-highlighting the previous step: the
  next visit of \<open>B\<close>, an element of the graph, is not counted, and its count stays 0
  after one visit. The two visits are what the step-start events for \<open>constructor\<close> and
  \<open>B\<close> do after the start event of the example run.
\<close>

theorem inherited_name_breaks_visit_counts:
  "\<not> resolves ex_visualizer ''constructor'' \<and> resolves ex_visualizer ''B''
   \<and> visitCounts ex_visualizer = Map.empty
   \<and> \<not> returned (updateStep ''constructor'' ex_visualizer)
   \<and> visitCounts (state_of (updateStep ''constructor'' ex_visualizer)) ''constructor'' = Some Text
   \<and> currentStepId (state_of (updateStep ''constructor'' ex_visualizer)) = Some ''constructor''
   \<and> \<not> returned (updateStep ''B'' (state_of (updateStep ''constructor'' ex_visualizer)))
   \<and> visitCount (updateSteps [''constructor'', ''B''] ex_visualizer) ''B'' = Number 0
   \<and> gv (onmessage ex_parse ''start'' ex_app) = ex_visualizer
   \<and> gv (onmessage ex_parse ''step-B'' (onmessage ex_parse ''step-constructor''
          (onmessage ex_parse ''start'' ex_app)))
        = updateSteps [''constructor'', ''B''] ex_visualizer"
proof -
  define g where "g = \<lparr> items =
     [ node_item (node_of ''default'' ex_vertex_A), node_item (node_of ''default'' ex_vertex_B),
       edge_item (edge_of ''default'' ex_model ex_edge_go) ] \<rparr>"
  have gr: "graph ex_visualizer = Some g" by (simp add: g_def ex_visualizer_graph)
  have fc: "findById g ''constructor'' = InheritedMember" by (simp add: g_def ex_findById)
  define s1 where "s1 = (count_visit ''constructor'' ex_visualizer)\<lparr>currentStepId := Some ''constructor''\<rparr>"
  have g1: "graph s1 = Some g" by (simp add: s1_def count_visit_def gr)
  have p: "passes_guards ex_visualizer ''constructor''"
    by (simp add: passes_guards_def gr fc)
  have u1: "updateStep ''constructor'' ex_visualizer = Inl (TypeError, s1)"
    by (simp add: updateStep_passed[OF p] unhighlight_previous_def ex_visualizer_fields
        s1_def[symmetric] updateElementColor_graph[OF g1] fc)
  have v1: "visitCounts s1 = [''constructor'' \<mapsto> Text]" "currentStepId s1 = Some ''constructor''"
    by (simp_all add: s1_def count_visit_def visitCount_def ex_visualizer_fields inherited_def)
  have pB: "passes_guards s1 ''B''"
    using ex_resolves(4) by (intro resolves_passes_guards) (simp add: resolves_def g1 gr)
  have uB: "updateStep ''B'' s1 = Inl (TypeError, s1)"
    by (simp add: updateStep_passed[OF pB] unhighlight_previous_graph[OF g1] v1 fc)
  have cB: "visitCount s1 ''B'' = Number 0"
    by (simp add: visitCount_def v1 inherited_def)
  show ?thesis
    using ex_resolves(4,5) ex_visualizer_fields(1) u1 v1 uB cB
    by (simp add: state_of_simps returned_simps gv_ex_app_started ex_events_constructor_B)
qed

text \<open>
  C2 holds for \<open>updateStep\<close> (see \<open>updateStep_unresolved\<close>) and fails for
  \<open>markElementAsFailed\<close>, which assigns \<open>failedStepId\<close> before it looks the item up: on
  the example graph the identifier \<open>ghost\<close> resolves to nothing, \<open>updateStep\<close> leaves the
  state as it is, and \<open>markElementAsFailed\<close> stores \<open>ghost\<close> as the failed step.
\<close>

theorem mark_failed_unresolved_stores_id:
  "\<not> resolves ex_visualizer ''ghost''
   \<and> failedStepId ex_visualizer = None
   \<and> updateStep ''ghost'' ex_visualizer = Inr ex_visualizer
   \<and> markElementAsFailed ''ghost'' ex_visualizer
        = Inr (ex_visualizer\<lparr>failedStepId := Some ''ghost''\<rparr>)"
proof -
  have m: "markElementAsFailed ''ghost'' ex_visualizer
        = Inr (ex_visualizer\<lparr>failedStepId := Some ''ghost''\<rparr>)"
    by (simp add: markElementAsFailed_def Let_def ex_visualizer_graph ex_findById)
  have "\<not> passes_guards ex_visualizer ''ghost''"
    by (simp add: passes_guards_def ex_visualizer_graph ex_findById)
  from m ex_resolves(3) updateStep_unresolved[OF this] ex_visualizer_fields(3)
  show ?thesis by simp
qed

section \<open>At most one current highlight\<close>

text \<open>
  C3: in every state the application reaches, at most one item is highlighted, and it
  is the item of \<open>currentStepId\<close>. The same holds in every state during a visit (the
  states \<open>updateStep_phases\<close> lists, one after each statement, the last being the state
  the visit leaves). In a successful visit, one that passes the guards and returns,
  nothing is highlighted from the un-highlighting of the previous step until the last
  statement, after which exactly the visited item is: the previous highlight is removed
  before the new one is set. In a visit that throws, nothing is highlighted at all.
\<close>

theorem at_most_one_current_highlight:
  assumes "reachable parse page a"
  shows "length (highlighted (gv a)) \<le> 1
       \<and> list_all (\<lambda>it. item_id it = currentStepId (gv a)) (highlighted (gv a))
       \<and> state_of (updateStep i (gv a)) = last (gv a # updateStep_phases i (gv a))
       \<and> list_all (\<lambda>s. length (highlighted s) \<le> 1) (updateStep_phases i (gv a))
       \<and> (if passes_guards (gv a) i \<and> returned (updateStep i (gv a))
            then length (updateStep_phases i (gv a)) = 5
               \<and> list_all (\<lambda>s. highlighted s = []) (butlast (updateStep_phases i (gv a)))
               \<and> map item_id (highlighted (last (updateStep_phases i (gv a)))) = [Some i]
            else list_all (\<lambda>s. highlighted s = []) (updateStep_phases i (gv a)))"
proof -
  have inv: "highlight_inv (gv a)" using assms by (rule reachable_highlight_inv)
  show ?thesis
  proof (cases "passes_guards (gv a) i")
    case True
    from phases_of_visit[OF inv True] highlight_inv_highlighted[OF inv]
      updateStep_is_last_phase[of i "gv a"] True
    show ?thesis by (simp split: if_splits)
  next
    case False
    then have "updateStep_phases i (gv a) = []" by (simp add: updateStep_phases_def)
    with False highlight_inv_highlighted[OF inv] updateStep_is_last_phase[of i "gv a"]
    show ?thesis by simp
  qed
qed

theorem at_most_one_current_highlight_witness:
  "reachable ex_parse ex_page ex_app_ended
   \<and> passes_guards (gv ex_app_ended) ''B'' \<and> returned (updateStep ''B'' (gv ex_app_ended))
   \<and> length (highlighted (gv ex_app_ended)) \<le> 1
   \<and> state_of (updateStep ''B'' (gv ex_app_ended))
        = last (gv ex_app_ended # updateStep_phases ''B'' (gv ex_app_ended))
   \<and> length (updateStep_phases ''B'' (gv ex_app_ended)) = 5
   \<and> list_all (\<lambda>s. highlighted s = []) (butlast (updateStep_phases ''B'' (gv ex_app_ended)))
   \<and> map item_id (highlighted (last (updateStep_phases ''B'' (gv ex_app_ended)))) = [Some ''B'']"
proof -
  from ex_after_visit obtain s' where s': "updateStep ''A'' ex_visualizer = Inr s'"
    "currentStepId s' = Some ''A''" "\<forall>e. resolves s' e = resolves ex_visualizer e" by blast
  have gv: "gv ex_app_ended = s'" by (simp add: gv_ex_app_ended s'(1) state_of_simps)
  have rB: "resolves s' ''B''" and rA: "resolves s' ''A''"
    using s'(3) ex_resolves by simp_all
  have p: "passes_guards (gv ex_app_ended) ''B''"
    unfolding gv by (rule resolves_passes_guards[OF rB])
  from updateStep_resolved[OF rB returned_unhighlight_previous(2)[OF s'(2) rA]]
  have r: "returned (updateStep ''B'' (gv ex_app_ended))"
    unfolding gv by (auto simp: returned_simps)
  from at_most_one_current_highlight [OF reachable_ex_app_ended, of "''B''"] p r
    reachable_ex_app_ended
  show ?thesis by simp
qed

section \<open>Run start\<close>

text \<open>
  C7, as stated: after an end event, a start event that carries a models array resets
  the run state. It fails when the array is empty: after a run that visited \<open>A\<close> once,
  a start message with \<open>models: []\<close> leaves the count of \<open>A\<close> at 1 and \<open>A\<close> the current
  step.
\<close>

theorem start_with_empty_models_counterexample:
  "msg_models ex_start_empty = Some []
   \<and> visitCount (gv (state_of (handleStartMessage ex_start_empty
        (state_of (handleEndMessage ex_end ex_app_running))))) ''A'' = Number 1
   \<and> currentStepId (gv (state_of (handleStartMessage ex_start_empty
        (state_of (handleEndMessage ex_end ex_app_running))))) = Some ''A''"
  using ex_after_visit
  by (auto simp: gv_handleStartMessage gv_handleEndMessage gv_ex_app_running ex_start_empty_def
      no_message_def state_of_simps)

text \<open>
  C7, amended: after an end event, a start event that carries a non-empty models array
  returns, and leaves the visualizer with the graph rendered from the new models alone,
  the new models stored, \<open>visitCounts\<close> empty and \<open>currentStepId\<close> and \<open>failedStepId\<close>
  \<open>null\<close>; nothing of the previous run but the layout direction remains.
\<close>

theorem start_with_models_resets_run:
  assumes "reachable parse page a" and "msg_models m = Some ms" and "ms \<noteq> []"
  shows "\<exists>a'. handleStartMessage m (state_of (handleEndMessage e a)) = Inr a'
           \<and> gv a' = \<lparr> graph = Some (g6_render (convertModelsToG6Data ms)), models = ms,
                        visitCounts = Map.empty, currentStepId = None, failedStepId = None,
                        layoutDirection = layoutDirection (gv a) \<rparr>"
proof -
  from reachable_graph[OF assms(1)] obtain g where g: "graph (gv a) = Some g" by blast
  have "gv (state_of (handleStartMessage m (state_of (handleEndMessage e a)))) =
          state_of (setModels ms (gv a))"
    using assms(2,3) by (simp add: gv_handleStartMessage gv_handleEndMessage)
  moreover have "state_of (setModels ms (gv a)) =
                   \<lparr> graph = Some (g6_render (convertModelsToG6Data ms)), models = ms,
                        visitCounts = Map.empty, currentStepId = None, failedStepId = None,
                        layoutDirection = layoutDirection (gv a) \<rparr>"
    using g assms(3) by (simp add: setModels_state)
  moreover have "\<exists>a'. handleStartMessage m (state_of (handleEndMessage e a)) = Inr a'"
    by (simp add: handleStartMessage_def Let_def)
  ultimately show ?thesis by (auto simp: state_of_simps)
qed

theorem start_with_models_resets_run_witness:
  "reachable ex_parse ex_page ex_app_ended \<and> msg_models ex_start = Some [ex_model]
   \<and> [ex_model] \<noteq> []
   \<and> visitCount (gv ex_app_ended) ''A'' = Number 1
   \<and> (\<exists>a'. handleStartMessage ex_start (state_of (handleEndMessage ex_end ex_app_ended)) = Inr a'
         \<and> visitCount (gv a') ''A'' = Number 0 \<and> currentStepId (gv a') = None
         \<and> failedStepId (gv a') = None
         \<and> graph (gv a') = Some (g6_render (convertModelsToG6Data [ex_model])))"
proof -
  have m: "msg_models ex_start = Some [ex_model]" by (simp add: ex_start_def no_message_def)
  have v: "visitCount (gv ex_app_ended) ''A'' = Number 1"
    using ex_after_visit by (auto simp: gv_ex_app_ended state_of_simps)
  from start_with_models_resets_run [OF reachable_ex_app_ended m, of ex_end]
  obtain a' where "handleStartMessage ex_start (state_of (handleEndMessage ex_end ex_app_ended)) = Inr a'"
    "gv a' = \<lparr> graph = Some (g6_render (convertModelsToG6Data [ex_model])), models = [ex_model],
                        visitCounts = Map.empty, currentStepId = None, failedStepId = None,
                        layoutDirection = layoutDirection (gv ex_app_ended) \<rparr>"
    by auto
  then show ?thesis using reachable_ex_app_ended m v by (simp add: visitCount_def inherited_def)
qed

text \<open>
  C10: a start message with no \<open>models\<close> field or with an empty \<open>models\<close> array returns
  and leaves the whole visualizer state as it was: the graph, \<open>visitCounts\<close>,
  \<open>currentStepId\<close> and \<open>failedStepId\<close> of the previous run remain.
\<close>

theorem start_without_models_keeps_run_state:
  assumes "msg_models m = None \<or> msg_models m = Some []"
  shows "\<exists>a'. handleStartMessage m a = Inr a' \<and> gv a' = gv a"
  using assms by (auto simp: handleStartMessage_def Let_def)

theorem start_without_models_witness:
  "(msg_models ex_start_empty = None \<or> msg_models ex_start_empty = Some [])
   \<and> (\<exists>a'. handleStartMessage ex_start_empty ex_app_ended = Inr a' \<and> gv a' = gv ex_app_ended)"
  using start_without_models_keeps_run_state [of ex_start_empty ex_app_ended]
  by (simp add: ex_start_empty_def no_message_def)

section \<open>The failure colour\<close>

lemma failed_colour_on_iff:
  "graph s = Some g \<Longrightarrow>
     failed_colour_on s i \<longleftrightarrow> (\<exists>it. own_item g i = Some it \<and> has_failed_style it)"
  by (auto simp: failed_colour_on_def split: option.splits)

lemma visit_colour_on_iff:
  "graph s = Some g \<Longrightarrow>
     visit_colour_on s i c \<longleftrightarrow> (\<exists>it. own_item g i = Some it \<and> has_visit_style it c)"
  by (auto simp: visit_colour_on_def split: option.splits)

lemma failed_colour_frame:
  "graph s' = graph s \<Longrightarrow> failed_colour_on s' e = failed_colour_on s e"
  by (simp add: failed_colour_on_def)

lemma failed_colour_resolves: "failed_colour_on s e \<Longrightarrow> \<exists>g it. graph s = Some g \<and> own_item g e = Some it"
  by (auto simp: failed_colour_on_def split: option.splits)

lemma has_failed_style_restyle:
  assumes "st_fill (f (it_style it)) = st_fill (it_style it)"
    and "st_stroke (f (it_style it)) = st_stroke (it_style it)"
    and "st_arrowFill (f (it_style it)) = st_arrowFill (it_style it)"
  shows "has_failed_style (it\<lparr>it_style := f (it_style it)\<rparr>) = has_failed_style it"
    and "has_visit_style (it\<lparr>it_style := f (it_style it)\<rparr>) c = has_visit_style it c"
  using assms
  by (cases "getType it"; simp add: has_failed_style_def has_visit_style_def getType_restyle)+

lemma has_failed_style_failed: "has_failed_style (it\<lparr>it_style := failed_style (getType it) st\<rparr>)"
  by (cases "getType it") (simp_all add: has_failed_style_def getType_restyle failed_style_def)

lemma has_visit_style_coloured: "has_visit_style (it\<lparr>it_style := color_style (getType it) c st\<rparr>) c"
  by (cases "getType it") (simp_all add: has_visit_style_def getType_restyle color_style_def)

lemma visit_style_not_failed:
  "has_visit_style it c \<Longrightarrow> c \<noteq> Some (RGB 239 68 68) \<Longrightarrow> \<not> has_failed_style it"
  by (cases "getType it") (auto simp: has_visit_style_def has_failed_style_def)

lemma channel_red_bound: "channel 209 16 k \<le> 209"
  by (simp add: channel_def)

lemma colorScale_not_failure: "colorScale v \<noteq> Some (RGB 239 68 68)"
proof (cases v)
  case (Number n)
  with channel_red_bound[of "min n 5"] show ?thesis by (auto simp: Let_def)
qed simp_all

lemma failed_colour_restyle:
  assumes "graph s = Some g" and "failed_colour_on s e"
    and "x = e \<Longrightarrow> \<forall>st. st_fill (f st) = st_fill st \<and> st_stroke (f st) = st_stroke st
                        \<and> st_arrowFill (f st) = st_arrowFill st"
    and "graph s' = Some (updateItem g x f)"
  shows "failed_colour_on s' e"
proof -
  from assms(1,2) obtain it where it: "own_item g e = Some it" "has_failed_style it"
    by (auto simp: failed_colour_on_iff)
  show ?thesis
  proof (cases "x = e")
    case True
    with assms(3) have "has_failed_style (it\<lparr>it_style := f (it_style it)\<rparr>)"
      using it(2) by (simp add: has_failed_style_restyle)
    with True it(1) show ?thesis
      by (simp add: failed_colour_on_iff[OF assms(4)] own_item_updateItem)
  next
    case False
    with it show ?thesis
      by (simp add: failed_colour_on_iff[OF assms(4)] own_item_updateItem)
  qed
qed

lemma highlightElement_keeps_failed_colour:
  assumes "failed_colour_on s e"
  shows "failed_colour_on (state_of (highlightElement x b s)) e"
proof -
  from failed_colour_resolves[OF assms] obtain g where g: "graph s = Some g" by blast
  show ?thesis
  proof (cases "findById g x = InheritedMember")
    case True
    with assms show ?thesis by (simp add: highlightElement_graph[OF g] state_of_simps)
  next
    case False
    have "failed_colour_on (s\<lparr>graph := Some (updateItem g x (highlight_style b))\<rparr>) e"
      by (rule failed_colour_restyle[OF g assms]) (simp_all add: highlight_style_def)
    with False show ?thesis by (simp add: highlightElement_graph[OF g] state_of_simps)
  qed
qed

lemma unhighlight_previous_keeps_failed_colour:
  assumes "failed_colour_on s e"
  shows "failed_colour_on (state_of (unhighlight_previous s)) e"
proof (cases "currentStepId s")
  case None
  with assms show ?thesis by (simp add: unhighlight_previous_def state_of_simps)
next
  case (Some c)
  with assms highlightElement_keeps_failed_colour[OF assms, of c False] show ?thesis
    by (simp add: unhighlight_previous_def state_of_simps)
qed

lemma markElementAsFailed_sets_failed_colour:
  assumes "resolves s e"
  shows "\<exists>s'. markElementAsFailed e s = Inr s' \<and> failed_colour_on s' e"
proof -
  from assms obtain g it where g: "graph s = Some g" and it: "own_item g e = Some it"
    by (auto simp: resolves_def split: option.splits)
  define s' where "s' = s\<lparr>failedStepId := Some e,
      graph := Some (updateItem g e (failed_style (getType it)))\<rparr>"
  have g': "graph s' = Some (updateItem g e (failed_style (getType it)))" by (simp add: s'_def)
  have "markElementAsFailed e s = Inr s'"
    using it by (simp add: markElementAsFailed_graph[OF g] findById_def s'_def)
  moreover have "failed_colour_on s' e"
    by (simp add: failed_colour_on_iff[OF g'] own_item_updateItem it has_failed_style_failed)
  ultimately show ?thesis by blast
qed

lemma markElementAsFailed_keeps_failed_colour:
  assumes "failed_colour_on s e"
  shows "failed_colour_on (state_of (markElementAsFailed x s)) e"
proof -
  from failed_colour_resolves[OF assms] obtain g it where
    g: "graph s = Some g" "own_item g e = Some it" by blast
  have frame: "failed_colour_on (s\<lparr>failedStepId := Some x\<rparr>) e"
    using assms by (simp add: failed_colour_on_def)
  show ?thesis
  proof (cases "findById g x")
    case (ItemFound itx)
    show ?thesis
    proof (cases "x = e")
      case True
      have "failed_colour_on (s\<lparr>failedStepId := Some e,
              graph := Some (updateItem g e (failed_style (getType it)))\<rparr>) e"
        by (simp add: own_item_updateItem g
            has_failed_style_failed failed_colour_on_def)
      with True g show ?thesis
        by (simp add: markElementAsFailed_graph[OF g(1)] findById_def state_of_simps)
    next
      case False
      have "failed_colour_on (s\<lparr>failedStepId := Some x,
              graph := Some (updateItem g x (failed_style (getType itx)))\<rparr>) e"
        by (rule failed_colour_restyle[OF g(1) assms]) (use False in simp_all)
      with ItemFound show ?thesis
        by (simp add: markElementAsFailed_graph[OF g(1)] state_of_simps)
    qed
  qed (use frame in \<open>simp_all add: markElementAsFailed_graph[OF g(1)] state_of_simps\<close>)
qed

lemma updateElementColor_keeps_failed_colour:
  assumes "failed_colour_on s e" and "x \<noteq> e"
  shows "failed_colour_on (state_of (updateElementColor x s)) e"
proof -
  from failed_colour_resolves[OF assms(1)] obtain g where g: "graph s = Some g" by blast
  show ?thesis
  proof (cases "findById g x")
    case (ItemFound itx)
    have "failed_colour_on (s\<lparr>graph := Some (updateItem g x
            (color_style (getType itx) (colorScale (visitCount s x))))\<rparr>) e"
      by (rule failed_colour_restyle[OF g assms(1)]) (use assms(2) in simp_all)
    with ItemFound show ?thesis by (simp add: updateElementColor_graph[OF g] state_of_simps)
  qed (use assms(1) in \<open>simp_all add: updateElementColor_graph[OF g] state_of_simps\<close>)
qed

lemma updateStep_keeps_failed_colour:
  assumes "failed_colour_on s e" and "x \<noteq> e"
  shows "failed_colour_on (state_of (updateStep x s)) e"
proof (cases "passes_guards s x")
  case False
  with assms show ?thesis by (simp add: updateStep_unresolved state_of_simps)
next
  case True
  note u = unhighlight_previous_keeps_failed_colour[OF assms(1)]
  show ?thesis
  proof (cases "unhighlight_previous s")
    case (Inl p)
    with u show ?thesis
      by (cases p) (simp add: updateStep_passed[OF True] state_of_simps)
  next
    case (Inr s1)
    with u have f1: "failed_colour_on s1 e" by (simp add: state_of_simps)
    define s3 where "s3 = (count_visit x s1)\<lparr>currentStepId := Some x\<rparr>"
    have f3: "failed_colour_on s3 e"
      using f1 by (simp add: s3_def count_visit_def failed_colour_on_def)
    note c = updateElementColor_keeps_failed_colour[OF f3 assms(2)]
    show ?thesis
    proof (cases "updateElementColor x s3")
      case (Inl p)
      with c Inr show ?thesis
        by (cases p) (simp add: updateStep_passed[OF True] s3_def state_of_simps)
    next
      case (Inr s4)
      with c have "failed_colour_on s4 e" by (simp add: state_of_simps)
      from highlightElement_keeps_failed_colour[OF this, of x True] Inr \<open>unhighlight_previous s = Inr s1\<close>
      show ?thesis by (simp add: updateStep_passed[OF True] s3_def)
    qed
  qed
qed

lemma do_call_keeps_failed_colour:
  assumes "failed_colour_on s e" and "\<not> recolours c e"
  shows "failed_colour_on (state_of (do_call c s)) e"
  using assms
  by (cases c)
    (simp_all add: updateStep_keeps_failed_colour updateElementColor_keeps_failed_colour
      highlightElement_keeps_failed_colour markElementAsFailed_keeps_failed_colour)

lemma do_calls_keep_failed_colour:
  assumes "failed_colour_on s e" and "list_all (\<lambda>c. \<not> recolours c e) cs"
  shows "failed_colour_on (do_calls cs s) e"
  using assms
  by (induction cs arbitrary: s) (simp_all add: do_call_keeps_failed_colour)

text \<open>
A colour update of the failed element replaces the failure colour.
\<close>

lemma updateElementColor_overwrites_failed_colour:
  assumes "graph s = Some g" and "own_item g e = Some it"
  shows "\<exists>s'. updateElementColor e s = Inr s' \<and> visitCounts s' = visitCounts s
           \<and> currentStepId s' = currentStepId s
           \<and> visit_colour_on s' e (colorScale (visitCount s e)) \<and> \<not> failed_colour_on s' e
           \<and> (\<exists>g' it'. graph s' = Some g' \<and> own_item g' e = Some it'
                  \<and> has_visit_style it' (colorScale (visitCount s e)))"
proof -
  define c where "c = colorScale (visitCount s e)"
  define s' where "s' = s\<lparr>graph := Some (updateItem g e (color_style (getType it) c))\<rparr>"
  have g': "graph s' = Some (updateItem g e (color_style (getType it) c))" by (simp add: s'_def)
  have o: "own_item (updateItem g e (color_style (getType it) c)) e
      = Some (it\<lparr>it_style := color_style (getType it) c (it_style it)\<rparr>)"
    by (simp add: own_item_updateItem assms(2))
  have v: "has_visit_style (it\<lparr>it_style := color_style (getType it) c (it_style it)\<rparr>) c"
    by (rule has_visit_style_coloured)
  have "updateElementColor e s = Inr s'"
    using assms(2) by (simp add: updateElementColor_graph[OF assms(1)] findById_def s'_def c_def)
  moreover have "visit_colour_on s' e c"
    using v by (simp add: visit_colour_on_iff[OF g'] o)
  moreover have "\<not> failed_colour_on s' e"
  proof -
    have "\<not> has_failed_style (it\<lparr>it_style := color_style (getType it) c (it_style it)\<rparr>)"
      using visit_style_not_failed[OF v] colorScale_not_failure[of "visitCount s e"]
      by (simp add: c_def)
    then show ?thesis by (simp add: failed_colour_on_iff[OF g'] o)
  qed
  ultimately show ?thesis using g' o v by (auto simp: c_def s'_def)
qed

lemma unhighlight_previous_throws_unchanged:
  "unhighlight_previous s = Inl (err, s') \<Longrightarrow> s' = s"
  by (auto simp: unhighlight_previous_def highlightElement_def
      split: option.splits if_splits looked_up.splits)

text \<open>
  A visit of the failed element that returns replaces the failure colour; one that
  throws does so before it changes anything.
\<close>

lemma updateStep_overwrites_failed_colour:
  assumes "failed_colour_on s e" and "e \<noteq> []"
  shows "case updateStep e s of
           Inr s3 \<Rightarrow> visit_colour_on s3 e (colorScale (visitCount s3 e)) \<and> \<not> failed_colour_on s3 e
         | Inl (err, s3) \<Rightarrow> s3 = s"
proof -
  from failed_colour_resolves[OF assms(1)] obtain g it where
    g: "graph s = Some g" "own_item g e = Some it" by blast
  have p: "passes_guards s e"
    using g assms(2) by (intro resolves_passes_guards) (simp add: resolves_def)
  show ?thesis
  proof (cases "unhighlight_previous s")
    case (Inl q)
    then show ?thesis
      by (cases q) (auto simp: updateStep_passed[OF p] dest: unhighlight_previous_throws_unchanged)
  next
    case (Inr s1)
    from unhighlight_previous_keeps_failed_colour[OF assms(1)] Inr
    have "failed_colour_on s1 e" by (simp add: state_of_simps)
    define s3 where "s3 = (count_visit e s1)\<lparr>currentStepId := Some e\<rparr>"
    from failed_colour_resolves[OF \<open>failed_colour_on s1 e\<close>] obtain g1 it1 where
      g1: "graph s3 = Some g1" "own_item g1 e = Some it1"
      by (auto simp: s3_def count_visit_def)
    define c where "c = colorScale (visitCount s3 e)"
    from updateElementColor_overwrites_failed_colour[OF g1] obtain s4 g4 it4 where
      s4: "updateElementColor e s3 = Inr s4" "visitCounts s4 = visitCounts s3"
      "graph s4 = Some g4" "own_item g4 e = Some it4" "has_visit_style it4 c"
      unfolding c_def by blast
    define s5 where "s5 = s4\<lparr>graph := Some (updateItem g4 e (highlight_style True))\<rparr>"
    have g5: "graph s5 = Some (updateItem g4 e (highlight_style True))" by (simp add: s5_def)
    have h: "highlightElement e True s4 = Inr s5"
      using s4(4) by (simp add: highlightElement_graph[OF s4(3)] findById_def s5_def)
    have o5: "own_item (updateItem g4 e (highlight_style True)) e
        = Some (it4\<lparr>it_style := highlight_style True (it_style it4)\<rparr>)"
      by (simp add: own_item_updateItem s4(4))
    have v5: "has_visit_style (it4\<lparr>it_style := highlight_style True (it_style it4)\<rparr>) c"
      using s4(5)
      by (cases "getType it4") (simp_all add: has_visit_style_def getType_restyle highlight_style_def)
    have c5: "visitCount s5 e = visitCount s3 e"
      by (simp add: visitCount_def s5_def s4(2))
    have "updateStep e s = Inr s5"
      using Inr s4(1) h by (simp add: updateStep_passed[OF p] s3_def)
    moreover have "visit_colour_on s5 e (colorScale (visitCount s5 e))"
      using v5 by (simp add: visit_colour_on_iff[OF g5] o5 c5 c_def)
    moreover have "\<not> failed_colour_on s5 e"
      using visit_style_not_failed[OF v5] colorScale_not_failure[of "visitCount s3 e"]
      by (simp add: failed_colour_on_iff[OF g5] o5 c_def)
    ultimately show ?thesis by simp
  qed
qed

lemma updateElementColor_replaces_failed_colour:
  assumes "failed_colour_on s e"
  shows "\<exists>s'. updateElementColor e s = Inr s'
           \<and> visit_colour_on s' e (colorScale (visitCount s e)) \<and> \<not> failed_colour_on s' e"
proof -
  from failed_colour_resolves[OF assms] obtain g it where
    g: "graph s = Some g" "own_item g e = Some it" by blast
  from updateElementColor_overwrites_failed_colour[OF g] show ?thesis by blast
qed

text \<open>
  C8, as stated: the failure colour stays on a failed element through any later visit.
  It fails on the example graph: \<open>A\<close> is marked failed and shows the failure colours;
  after the next visit of \<open>A\<close> it does not.
\<close>

theorem failure_colour_counterexample:
  "failed_colour_on (state_of (markElementAsFailed ''A'' ex_visualizer)) ''A''
   \<and> \<not> failed_colour_on (state_of (updateStep ''A''
          (state_of (markElementAsFailed ''A'' ex_visualizer)))) ''A''"
proof -
  from markElementAsFailed_sets_failed_colour[OF ex_resolves(1)] obtain s1 where
    s1: "markElementAsFailed ''A'' ex_visualizer = Inr s1" "failed_colour_on s1 ''A''" by blast
  have c: "currentStepId s1 = None"
    using s1(1) ex_resolves(1)
    by (auto simp: markElementAsFailed_def Let_def ex_visualizer_fields
        split: option.splits looked_up.splits)
  from s1(2) have r: "resolves s1 ''A''"
    by (auto simp: resolves_def failed_colour_on_def split: option.splits)
  from updateStep_resolved[OF r returned_unhighlight_previous(1)[OF c]] obtain s2 where
    s2: "updateStep ''A'' s1 = Inr s2" by blast
  from updateStep_overwrites_failed_colour[OF s1(2), of] s2
  have "\<not> failed_colour_on s2 ''A''" by simp
  with s1 s2 show ?thesis by (simp add: state_of_simps)
qed

text \<open>
  C8, amended: marking an element of the graph failed returns and gives it the fixed
  failure colours, whatever its visit count, and the colour scale never yields the
  failure colour. The failure colours stay on the element through any later calls that
  highlight or un-highlight any element, mark any element failed, or visit or recolour
  another element, whether these calls return or throw. After them, a colour update of
  the element itself returns and replaces the failure colours by the colour the scale
  gives for its visit count; so does a visit of the element that returns; a visit of it
  that throws changes nothing.
\<close>

theorem failure_colour_persistence:
  assumes "resolves s e" and "list_all (\<lambda>c. \<not> recolours c e) cs"
  shows "\<exists>s1. markElementAsFailed e s = Inr s1 \<and> failed_colour_on s1 e
           \<and> failed_colour_on (do_calls cs s1) e
           \<and> (\<exists>s3. updateElementColor e (do_calls cs s1) = Inr s3
                  \<and> visit_colour_on s3 e (colorScale (visitCount (do_calls cs s1) e))
                  \<and> \<not> failed_colour_on s3 e)
           \<and> (case updateStep e (do_calls cs s1) of
                Inr s3 \<Rightarrow> visit_colour_on s3 e (colorScale (visitCount s3 e))
                          \<and> \<not> failed_colour_on s3 e
              | Inl (err, s3) \<Rightarrow> s3 = do_calls cs s1)
           \<and> colorScale v \<noteq> Some (RGB 239 68 68)"
proof -
  from assms(1) have e: "e \<noteq> []" by (auto simp: resolves_def split: option.splits)
  from markElementAsFailed_sets_failed_colour[OF assms(1)] obtain s1 where
    s1: "markElementAsFailed e s = Inr s1" "failed_colour_on s1 e" by blast
  note s2 = do_calls_keep_failed_colour[OF s1(2) assms(2)]
  from s1 s2 updateElementColor_replaces_failed_colour[OF s2]
    updateStep_overwrites_failed_colour[OF s2 e] colorScale_not_failure[of v]
  show ?thesis by blast
qed

theorem failure_colour_persistence_witness:
  "resolves ex_visualizer ''A''
   \<and> list_all (\<lambda>c. \<not> recolours c ''A'')
        [HighlightElement ''A'' True, UpdateStep ''B'', MarkElementAsFailed ''B'',
         UpdateStep ''constructor'', UpdateElementColor ''go'', HighlightElement ''A'' False]
   \<and> (\<exists>s1. markElementAsFailed ''A'' ex_visualizer = Inr s1 \<and> failed_colour_on s1 ''A''
         \<and> failed_colour_on (do_calls
              [HighlightElement ''A'' True, UpdateStep ''B'', MarkElementAsFailed ''B'',
               UpdateStep ''constructor'', UpdateElementColor ''go'',
               HighlightElement ''A'' False] s1) ''A''
         \<and> (\<exists>s3. updateElementColor ''A'' (do_calls
              [HighlightElement ''A'' True, UpdateStep ''B'', MarkElementAsFailed ''B'',
               UpdateStep ''constructor'', UpdateElementColor ''go'',
               HighlightElement ''A'' False] s1) = Inr s3 \<and> \<not> failed_colour_on s3 ''A''))"
proof -
  have l: "list_all (\<lambda>c. \<not> recolours c ''A'')
        [HighlightElement ''A'' True, UpdateStep ''B'', MarkElementAsFailed ''B'',
         UpdateStep ''constructor'', UpdateElementColor ''go'', HighlightElement ''A'' False]"
    by simp
  from failure_colour_persistence [OF ex_resolves(1) l] ex_resolves(1) l show ?thesis
    by blast
qed

section \<open>Statistics\<close>

lemma spec_percentage_example: "spec_percentage 2 3 = 67"
  by (simp add: spec_percentage_def round_def floor_eq_iff)

text \<open>
  C6, as stated: the displayed coverage is \<open>round(visited / total * 100)\<close>. It fails
  for statistics with two of three edges visited and \<open>edgeCoverage: 66\<close>: the page shows
  66, the formula gives 67.
\<close>

theorem coverage_counterexample:
  "totalNumberOfVisitedEdges ex_statistics = Some 2
   \<and> totalNumberOfUnvisitedEdges ex_statistics = Some 1
   \<and> statsEdgeCoverage_percent (updateStatistics (Some True) ex_statistics ex_page) = 66
   \<and> spec_percentage 2 (2 + 1) = 67"
  using spec_percentage_example
  by (simp add: ex_statistics_def no_statistics_def updateStatistics_def num_or0_def Let_def)

text \<open>
  C6, amended: the viewer computes no percentage. The edge and the vertex figure shown
  are the \<open>edgeCoverage\<close> and \<open>vertexCoverage\<close> of the end message, or 0 when the field is
  absent, both by the same rule and with the class \<open>getCoverageClass\<close> gives for the
  number shown; an end message without statistics shows 0 for both. Nothing is divided.
\<close>

theorem coverage_displayed_as_supplied:
  "statsEdgeCoverage_percent (updateStatistics status st u) =
      (case edgeCoverage st of None \<Rightarrow> 0 | Some n \<Rightarrow> n)
   \<and> statsVertexCoverage_percent (updateStatistics status st u) =
      (case vertexCoverage st of None \<Rightarrow> 0 | Some n \<Rightarrow> n)
   \<and> statsEdgeCoverage_class (updateStatistics status st u) =
      ''px-2 py-1 rounded text-xs font-medium '' @
        getCoverageClass (case edgeCoverage st of None \<Rightarrow> 0 | Some n \<Rightarrow> n)
   \<and> statsVertexCoverage_class (updateStatistics status st u) =
      ''px-2 py-1 rounded text-xs font-medium '' @
        getCoverageClass (case vertexCoverage st of None \<Rightarrow> 0 | Some n \<Rightarrow> n)
   \<and> statsEdgeCoverage_percent (ui (state_of (handleEndMessage (no_message\<lparr>msg_status := status\<rparr>) a))) = 0
   \<and> statsVertexCoverage_percent (ui (state_of (handleEndMessage (no_message\<lparr>msg_status := status\<rparr>) a))) = 0"
  by (simp add: updateStatistics_def num_or0_def Let_def handleEndMessage_def state_of_def
      no_message_def no_statistics_def appendOutput_def split: option.splits)

section \<open>Malformed and unrecognized messages\<close>





end
